theory Spec2Isabelle
  imports Complex_Main
begin

section \<open>JavaScript strings\<close>

text \<open>
  A JavaScript string is modelled as a \<^typ>\<open>string\<close>: a list of code units below 256
  (the Latin-1 range). The helpers below follow \<^verbatim>\<open>String.prototype\<close> on that
  range.
\<close>

definition toLowerCase_char :: "char \<Rightarrow> char" where
  "toLowerCase_char c =
     (let n = (of_char c :: nat)
      in if (65 \<le> n \<and> n \<le> 90) \<or> (192 \<le> n \<and> n \<le> 222 \<and> n \<noteq> 215)
         then char_of (n + 32) else c)"

definition toLowerCase :: "string \<Rightarrow> string" where
  "toLowerCase s = map toLowerCase_char s"

fun startsWith :: "string \<Rightarrow> string \<Rightarrow> bool" where
  "startsWith s [] = True"
| "startsWith [] (p # ps) = False"
| "startsWith (c # cs) (p # ps) = (c = p \<and> startsWith cs ps)"

fun includes_str :: "string \<Rightarrow> string \<Rightarrow> bool" where
  "includes_str [] p = (p = [])"
| "includes_str (c # cs) p = (startsWith (c # cs) p \<or> includes_str cs p)"

definition endsWith :: "string \<Rightarrow> string \<Rightarrow> bool" where
  "endsWith s p = startsWith (rev s) (rev p)"

text \<open>White space of \<^verbatim>\<open>trim\<close> and of the regular-expression class \<^verbatim>\<open>\s\<close>:
  TAB, LF, VT, FF, CR, SPACE and NBSP.\<close>

definition isSpace :: "char \<Rightarrow> bool" where
  "isSpace c = (let n = (of_char c :: nat) in (9 \<le> n \<and> n \<le> 13) \<or> n = 32 \<or> n = 160)"

definition isWordChar :: "char \<Rightarrow> bool" where
  "isWordChar c =
     (let n = (of_char c :: nat)
      in (48 \<le> n \<and> n \<le> 57) \<or> (65 \<le> n \<and> n \<le> 90) \<or> n = 95 \<or> (97 \<le> n \<and> n \<le> 122))"

definition trim :: "string \<Rightarrow> string" where
  "trim s = rev (dropWhile isSpace (rev (dropWhile isSpace s)))"

text \<open>\<^verbatim>\<open>s.replace(/\*\*/g, '')\<close>: every occurrence of two stars is removed, scanning
  from the left.\<close>

fun stripBold :: "string \<Rightarrow> string" where
  "stripBold (a # b # cs) =
     (if a = CHR ''*'' \<and> b = CHR ''*'' then stripBold cs else a # stripBold (b # cs))"
| "stripBold cs = cs"

text \<open>\<^verbatim>\<open>xs.join(sep)\<close>\<close>

fun join :: "string \<Rightarrow> string list \<Rightarrow> string" where
  "join sep [] = []"
| "join sep [x] = x"
| "join sep (x # y # ys) = x @ sep @ join sep (y # ys)"

text \<open>The operator \<^verbatim>\<open>a || b\<close> on values that are a string or undefined: the empty
  string and undefined are falsy.\<close>

definition truthy :: "string option \<Rightarrow> bool" where
  "truthy v = (case v of None \<Rightarrow> False | Some s \<Rightarrow> s \<noteq> [])"

definition orElse :: "string option \<Rightarrow> string option \<Rightarrow> string option" where
  "orElse a b = (if truthy a then a else b)"

definition orStr :: "string option \<Rightarrow> string \<Rightarrow> string" where
  "orStr a d = (case a of None \<Rightarrow> d | Some s \<Rightarrow> if s = [] then d else s)"

section \<open>Regular expressions\<close>

text \<open>
  The fragment of ECMAScript regular expressions that the server and the feedback engine
  use: characters, classes, sequence, alternation, greedy star, plus and option, capture
  groups and the word boundary. Matching is the backtracking matcher of the language:
  the results of \<open>rx_m\<close> are all the ways to match at the current position, in the order
  in which backtracking tries them.
\<close>

datatype citem = CC char | CSpace | CWord

datatype rx =
    Eps
  | Chr char
  | Cls "citem list"
  | NCls "citem list"
  | Seq rx rx
  | Alt rx rx
  | Star rx
  | Plus rx
  | Opt rx
  | Grp nat rx
  | WordB

text \<open>A literal word is the sequence of its characters.\<close>

fun lit :: "string \<Rightarrow> rx" where
  "lit [] = Eps"
| "lit [c] = Chr c"
| "lit (c # cs) = Seq (Chr c) (lit cs)"

fun seqs :: "rx list \<Rightarrow> rx" where
  "seqs [] = Eps"
| "seqs [r] = r"
| "seqs (r # rs) = Seq r (seqs rs)"

fun alts :: "rx list \<Rightarrow> rx" where
  "alts [] = Eps"
| "alts [r] = r"
| "alts (r # rs) = Alt r (alts rs)"

text \<open>A matcher state: the character before the current position (for the word
  boundary), the rest of the input and the captures made so far (latest first).\<close>

type_synonym mstate = "char option \<times> string \<times> (nat \<times> string) list"

definition rest_of :: "mstate \<Rightarrow> string" where
  "rest_of st = fst (snd st)"

definition char_eq :: "bool \<Rightarrow> char \<Rightarrow> char \<Rightarrow> bool" where
  "char_eq ci x c = (if ci then toLowerCase_char x = toLowerCase_char c else x = c)"

fun citem_has :: "bool \<Rightarrow> char \<Rightarrow> citem \<Rightarrow> bool" where
  "citem_has ci x (CC c) = char_eq ci x c"
| "citem_has ci x CSpace = isSpace x"
| "citem_has ci x CWord = isWordChar x"

definition one_char :: "(char \<Rightarrow> bool) \<Rightarrow> mstate \<Rightarrow> mstate list" where
  "one_char P st =
     (case st of (p, s, cs) \<Rightarrow>
        (case s of [] \<Rightarrow> [] | x # xs \<Rightarrow> if P x then [(Some x, xs, cs)] else []))"

definition is_word_opt :: "char option \<Rightarrow> bool" where
  "is_word_opt p = (case p of None \<Rightarrow> False | Some c \<Rightarrow> isWordChar c)"

definition word_boundary :: "mstate \<Rightarrow> mstate list" where
  "word_boundary st =
     (case st of (p, s, cs) \<Rightarrow>
        if is_word_opt p \<noteq> is_word_opt (case s of [] \<Rightarrow> None | x # xs \<Rightarrow> Some x)
        then [st] else [])"

text \<open>Greedy repetition: one more iteration is tried before stopping; an iteration that
  consumes nothing is rejected, as in the language.\<close>

function star_iter :: "(mstate \<Rightarrow> mstate list) \<Rightarrow> mstate \<Rightarrow> mstate list" where
  "star_iter f st =
     concat (map (star_iter f)
       (filter (\<lambda>st'. length (rest_of st') < length (rest_of st)) (f st))) @ [st]"
  by pat_completeness auto
termination
  by (relation "measure (\<lambda>(f, st). length (rest_of st))") auto

declare star_iter.simps [simp del]

definition capture :: "nat \<Rightarrow> mstate \<Rightarrow> mstate \<Rightarrow> mstate" where
  "capture n st st' =
     (case st' of (p', s', cs') \<Rightarrow>
        (p', s', (n, take (length (rest_of st) - length s') (rest_of st)) # cs'))"

primrec rx_m :: "bool \<Rightarrow> rx \<Rightarrow> mstate \<Rightarrow> mstate list" where
  "rx_m ci Eps st = [st]"
| "rx_m ci (Chr c) st = one_char (\<lambda>x. char_eq ci x c) st"
| "rx_m ci (Cls items) st = one_char (\<lambda>x. list_ex (citem_has ci x) items) st"
| "rx_m ci (NCls items) st = one_char (\<lambda>x. \<not> list_ex (citem_has ci x) items) st"
| "rx_m ci (Seq a b) st = concat (map (rx_m ci b) (rx_m ci a st))"
| "rx_m ci (Alt a b) st = rx_m ci a st @ rx_m ci b st"
| "rx_m ci (Star a) st = star_iter (rx_m ci a) st"
| "rx_m ci (Plus a) st = concat (map (star_iter (rx_m ci a)) (rx_m ci a st))"
| "rx_m ci (Opt a) st = rx_m ci a st @ [st]"
| "rx_m ci (Grp n a) st = map (capture n st) (rx_m ci a st)"
| "rx_m ci WordB st = word_boundary st"

text \<open>A match: the matched text, the captures, and the position after it.\<close>

record rmatch =
  matched :: string
  groups :: "(nat \<times> string) list"
  after_prev :: "char option"
  after_rest :: string

text \<open>\<^verbatim>\<open>RegExp.prototype.exec\<close> without the global flag: the first position, from the
  left, at which the expression matches, and there the first match in backtracking
  order.\<close>

fun rx_search :: "bool \<Rightarrow> rx \<Rightarrow> char option \<Rightarrow> string \<Rightarrow> rmatch option" where
  "rx_search ci r p [] =
     (case rx_m ci r (p, [], []) of
        [] \<Rightarrow> None
      | st # _ \<Rightarrow> Some \<lparr>matched = [], groups = snd (snd st), after_prev = p, after_rest = []\<rparr>)"
| "rx_search ci r p (c # s) =
     (case rx_m ci r (p, c # s, []) of
        [] \<Rightarrow> rx_search ci r (Some c) s
      | st # _ \<Rightarrow>
          Some \<lparr>matched = take (length (c # s) - length (rest_of st)) (c # s),
                groups = snd (snd st), after_prev = fst st, after_rest = rest_of st\<rparr>)"

definition rx_match :: "bool \<Rightarrow> rx \<Rightarrow> string \<Rightarrow> rmatch option" where
  "rx_match ci r s = rx_search ci r None s"

definition rx_test :: "bool \<Rightarrow> rx \<Rightarrow> string \<Rightarrow> bool" where
  "rx_test ci r s = (rx_match ci r s \<noteq> None)"

text \<open>The value of capture group \<open>n\<close> of a match: undefined when the group took no part.\<close>

definition grp :: "rmatch \<Rightarrow> nat \<Rightarrow> string option" where
  "grp m n = map_of (groups m) n"

text \<open>\<^verbatim>\<open>String.prototype.match\<close> with the global flag: the matched texts, from the left;
  the search goes on after each match (one character further after an empty match).\<close>

function rx_match_all :: "bool \<Rightarrow> rx \<Rightarrow> char option \<Rightarrow> string \<Rightarrow> string list" where
  "rx_match_all ci r p s =
     (case rx_search ci r p s of
        None \<Rightarrow> []
      | Some m \<Rightarrow>
          if length (after_rest m) < length s \<and> matched m \<noteq> []
          then matched m # rx_match_all ci r (after_prev m) (after_rest m)
          else (case after_rest m of
                  [] \<Rightarrow> [matched m]
                | c # cs \<Rightarrow>
                    if length cs < length s
                    then matched m # rx_match_all ci r (Some c) cs
                    else [matched m]))"
  by pat_completeness auto
termination
  by (relation "measure (\<lambda>(ci, r, p, s). length s)") auto

declare rx_match_all.simps [simp del]

section \<open>The analysis of a turn\<close>

text \<open>
  A mistake object, with the fields that the server reads or writes. The objects that the
  AI engine returns and the ones the server builds have the same shape; a field that an
  object does not have is \<open>None\<close>.
\<close>

record mistake =
  category :: "string option"
  category_display :: "string option"
  sub_category :: "string option"
  grammar_category :: "string option"
  original_part :: "string option"
  original_text :: "string option"
  corrected_version :: "string option"
  corrected_text :: "string option"
  short_explanation :: "string option"
  explanation :: "string option"
  severity :: "string option"

definition no_fields :: mistake where
  "no_fields = \<lparr>category = None, category_display = None, sub_category = None,
     grammar_category = None, original_part = None, original_text = None,
     corrected_version = None, corrected_text = None, short_explanation = None,
     explanation = None, severity = None\<rparr>"

text \<open>
  An entry of the mistake list. The list of the AI comes out of \<^verbatim>\<open>JSON.parse\<close>, so an
  entry is \<^verbatim>\<open>null\<close> or a value whose properties can be read: an object, seen through the
  fields above, which are taken to be strings where the object has them (an entry that is
  a number, a string, a boolean or an array has none of them). The entries that the
  server builds are objects.
\<close>

datatype entry = Null | Obj mistake

text \<open>Reading a property of \<^verbatim>\<open>null\<close> throws a \<^verbatim>\<open>TypeError\<close>.\<close>

datatype error = TypeError

text \<open>The object that \<^verbatim>\<open>AIEngine.analyzeAndRespond\<close> resolves to, as the chat handler
  reads it.\<close>

record analysis =
  an_sentence_status :: "string option"
  an_mistakes :: "entry list"
  an_feedback :: string
  an_short_feedback :: "string option"
  an_feedback_type :: "string option"
  an_grammar_category :: "string option"

subsection \<open>\<^verbatim>\<open>AIEngine.analyzeAndRespond\<close>\<close>

text \<open>
  The call of the language model is outside the program. Its outcome is an exception
  (of \<^verbatim>\<open>startChat\<close>, \<^verbatim>\<open>sendMessage\<close> or \<^verbatim>\<open>response.text()\<close>), a response
  text without a JSON object in it (or with one that \<^verbatim>\<open>JSON.parse\<close> rejects), or a
  response text with a parsed object, of which the engine reads three fields. Where the
  object has them, \<^verbatim>\<open>feedback\<close> and \<^verbatim>\<open>sentence_status\<close> are taken to be strings and
  \<^verbatim>\<open>mistakes\<close> a list, as the prompt asks for; the entries of the list may be
  \<^verbatim>\<open>null\<close>.
\<close>

datatype ai_outcome =
    ApiError
  | PlainText string
  | Json string "string option" "string option" "entry list option"

definition fallback :: string where
  "fallback = ''That is interesting! Can you tell me more?''"

fun analyzeAndRespond :: "ai_outcome \<Rightarrow> analysis" where
  "analyzeAndRespond ApiError =
     \<lparr>an_sentence_status = Some ''correct'', an_mistakes = [], an_feedback = fallback,
      an_short_feedback = None, an_feedback_type = None, an_grammar_category = None\<rparr>"
| "analyzeAndRespond (PlainText response) =
     \<lparr>an_sentence_status = Some ''correct'', an_mistakes = [], an_feedback = response,
      an_short_feedback = None, an_feedback_type = None, an_grammar_category = None\<rparr>"
| "analyzeAndRespond (Json response parsed_feedback parsed_status parsed_mistakes) =
     \<lparr>an_sentence_status = Some (orStr parsed_status ''correct''),
      an_mistakes = (case parsed_mistakes of None \<Rightarrow> [] | Some ms \<Rightarrow> ms),
      an_feedback = orStr parsed_feedback response,
      an_short_feedback = None, an_feedback_type = None, an_grammar_category = None\<rparr>"

subsection \<open>Correction detection\<close>

definition correctionPatterns :: "string list" where
  \<open>correctionPatterns =
    [''instead of'',
     ''you could say'',
     ''you can say'',
     ''should be'',
     ''should say'',
     ''correct form'',
     ''correct way'',
     ''better to say'',
     ''more common to say'',
     ''it would be'',
     ''would be:'',
     ''small correction'',
     ''minor correction'',
     ''little correction'',
     ''let's work on'',
     ''let me help'',
     ''a few things to note'',
     ''things to note'',
     ''past tense'',
     ''present tense'',
     ''we use'',
     ''you need to use'',
     ''we need to use'',
     ''need a verb'',
     ''missing verb'',
     ''missing a verb'',
     ''use the right verb'',
     ''"was" vs'',
     ''"is" vs'',
     ''vs. "'',
     ''**was**'',
     ''**had**'',
     ''**went**'',
     ''**is**'',
     ''**are**'']\<close>

text \<open>The loop over the patterns, left at the first one found in the feedback.\<close>

fun detect :: "string \<Rightarrow> string list \<Rightarrow> string option" where
  "detect feedbackLower [] = None"
| "detect feedbackLower (pattern # patterns) =
     (if includes_str feedbackLower (toLowerCase pattern) then Some pattern
      else detect feedbackLower patterns)"

subsection \<open>The extraction cascade\<close>

definition dquote :: rx where
  \<open>dquote = Chr CHR ''"''\<close>

definition not_dquote :: rx where
  \<open>not_dquote = NCls [CC CHR ''"'']\<close>

definition colon_or_space :: rx where
  "colon_or_space = Cls [CC CHR '':'', CSpace]"

definition moreCommon_rx :: rx where
  "moreCommon_rx =
     Alt (seqs [Alt (lit ''more common to say'') (lit ''would be more common''),
                Star colon_or_space, dquote, Grp 1 (Plus not_dquote), dquote])
         (seqs [Alt (lit ''more common to say'') (lit ''would be more common''),
                Star colon_or_space, dquote, Grp 2 (Plus not_dquote), dquote])"

definition wouldBe_rx :: rx where
  "wouldBe_rx =
     Alt (seqs [Alt (lit ''it would be'') (lit ''would be''),
                Star colon_or_space, dquote, Grp 1 (Plus not_dquote), dquote])
         (seqs [Alt (lit ''it would be'') (lit ''would be''),
                Star colon_or_space, dquote, Grp 2 (Plus not_dquote), dquote])"

definition bold_rx :: rx where
  "bold_rx = seqs [lit ''**'', Grp 1 (Plus (NCls [CC CHR ''*''])), lit ''**'']"

definition sentence_end :: rx where
  "sentence_end = Cls [CC CHR ''.'', CC CHR ''!'', CC CHR ''?'']"

definition fullSentence_rx :: rx where
  "fullSentence_rx =
     Alt (seqs [dquote, Grp 1 (seqs [Cls [CC CHR ''I''], Plus not_dquote, sentence_end]), dquote])
         (seqs [dquote, Grp 2 (seqs [Cls [CC CHR ''I''], Plus not_dquote, sentence_end]), dquote])"

definition couldSay_rx :: rx where
  "couldSay_rx =
     seqs [lit ''you could say'', Star (Cls [CSpace]), dquote, Grp 1 (Plus not_dquote), dquote]"

definition quoted_rx :: rx where
  "quoted_rx =
     seqs [dquote,
           Grp 1 (seqs [Star not_dquote,
                        alts [lit ''made'', lit ''making'', lit ''went'', lit ''goes'',
                              lit ''is'', lit ''are'', lit ''was'', lit ''were''],
                        Star not_dquote]),
           dquote]"

definition itWas_rx :: rx where
  "itWas_rx =
     seqs [dquote,
           Grp 1 (seqs [Star not_dquote, lit ''It '', Alt (lit ''was'') (lit ''is''),
                        Star not_dquote]),
           dquote]"

definition word_rx :: rx where
  "word_rx = Plus (Cls [CWord])"

definition spaces1 :: rx where
  "spaces1 = Plus (Cls [CSpace])"

definition aboutTo_rx :: rx where
  \<open>aboutTo_rx =
     Alt (seqs [dquote, lit ''I'm about to'', spaces1, Opt (lit ''**''), Grp 1 word_rx,
                Opt (lit ''**''), spaces1,
                Opt (seqs [Chr CHR ''a'', Opt (Chr CHR ''n''), spaces1]),
                Grp 2 word_rx, Opt (Chr CHR ''.''), dquote])
         (seqs [lit ''I'm about to'', spaces1, Opt (lit ''**''), Grp 3 word_rx,
                Opt (lit ''**''), spaces1,
                Opt (seqs [Chr CHR ''a'', Opt (Chr CHR ''n''), spaces1]),
                Grp 4 word_rx])\<close>

definition bulletQuote_rx :: rx where
  "bulletQuote_rx =
     seqs [Chr CHR ''*'', Star (Cls [CSpace]), dquote, Grp 1 (Plus not_dquote), dquote]"

definition shouldBe_rx :: rx where
  \<open>shouldBe_rx =
     seqs [lit ''should '', Alt (lit ''be'') (lit ''say''), Star (Cls [CSpace]), Opt dquote,
           Grp 1 (Plus (NCls [CC CHR ''"'', CC CHR ''.'', CC CHR '','', CC CHR ''!'',
                              CC CHR ''?'']))]\<close>

text \<open>\<^verbatim>\<open>(m[1] || m[2] || '')\<close>\<close>

definition grp12 :: "rmatch \<Rightarrow> string" where
  "grp12 m = orStr (orElse (grp m 1) (grp m 2)) []"

text \<open>The value of \<^verbatim>\<open>correctedText\<close> after each pattern of the cascade, given its value
  before. The first pattern runs unguarded on the empty text; every later one runs only
  while the text is still empty.\<close>

definition pattern0a :: "string \<Rightarrow> string \<Rightarrow> string" where
  "pattern0a aiResponse correctedText =
     (case rx_match True moreCommon_rx aiResponse of
        Some m \<Rightarrow> trim (stripBold (grp12 m))
      | None \<Rightarrow> correctedText)"

definition pattern0b :: "string \<Rightarrow> string \<Rightarrow> string" where
  "pattern0b aiResponse correctedText =
     (if correctedText = [] then
        (case rx_match True wouldBe_rx aiResponse of
           Some m \<Rightarrow> trim (stripBold (grp12 m))
         | None \<Rightarrow> correctedText)
      else correctedText)"

definition pattern0c :: "string \<Rightarrow> string \<Rightarrow> string" where
  "pattern0c aiResponse correctedText =
     (if correctedText = [] then
        (let boldMatches = rx_match_all False bold_rx None aiResponse
         in if boldMatches \<noteq> [] then ''Use: '' @ join '', '' (map stripBold boldMatches)
            else correctedText)
      else correctedText)"

definition pattern1 :: "string \<Rightarrow> string \<Rightarrow> string" where
  "pattern1 aiResponse correctedText =
     (if correctedText = [] then
        (case rx_match False fullSentence_rx aiResponse of
           Some m \<Rightarrow> trim (stripBold (grp12 m))
         | None \<Rightarrow> correctedText)
      else correctedText)"

definition pattern2 :: "string \<Rightarrow> string \<Rightarrow> string" where
  "pattern2 aiResponse correctedText =
     (if correctedText = [] then
        (case rx_match True couldSay_rx aiResponse of
           Some m \<Rightarrow> stripBold (orStr (grp m 1) [])
         | None \<Rightarrow> correctedText)
      else correctedText)"

definition pattern3 :: "string \<Rightarrow> string \<Rightarrow> string" where
  "pattern3 aiResponse correctedText =
     (if correctedText = [] then
        (case rx_match True quoted_rx aiResponse of
           Some m \<Rightarrow> trim (stripBold (orStr (grp m 1) []))
         | None \<Rightarrow> correctedText)
      else correctedText)"

definition pattern4 :: "string \<Rightarrow> string \<Rightarrow> string" where
  "pattern4 aiResponse correctedText =
     (if correctedText = [] then
        (case rx_match True itWas_rx aiResponse of
           Some m \<Rightarrow> trim (stripBold (orStr (grp m 1) []))
         | None \<Rightarrow> correctedText)
      else correctedText)"

text \<open>Pattern 5 of the source only writes to the log.\<close>

definition pattern6 :: "string \<Rightarrow> string \<Rightarrow> string" where
  \<open>pattern6 aiResponse correctedText =
     (if correctedText = [] then
        (case rx_match True aboutTo_rx aiResponse of
           Some m \<Rightarrow>
             (let verb = orStr (orElse (grp m 1) (grp m 3)) [];
                  noun = orStr (orElse (grp m 2) (grp m 4)) []
              in if verb \<noteq> [] \<and> noun \<noteq> [] then ''I'm about to '' @ verb @ '' an '' @ noun
                 else correctedText)
         | None \<Rightarrow> correctedText)
      else correctedText)\<close>

definition pattern7 :: "string \<Rightarrow> string \<Rightarrow> string" where
  "pattern7 aiResponse correctedText =
     (if correctedText = [] then
        (case rx_match False bulletQuote_rx aiResponse of
           Some m \<Rightarrow> trim (stripBold (orStr (grp m 1) []))
         | None \<Rightarrow> correctedText)
      else correctedText)"

definition pattern8 :: "string \<Rightarrow> string \<Rightarrow> string" where
  "pattern8 aiResponse correctedText =
     (if correctedText = [] then
        (case rx_match True shouldBe_rx aiResponse of
           Some m \<Rightarrow> trim (stripBold (orStr (grp m 1) []))
         | None \<Rightarrow> correctedText)
      else correctedText)"

definition extractCorrected :: "string \<Rightarrow> string" where
  "extractCorrected aiResponse =
     pattern8 aiResponse (pattern7 aiResponse (pattern6 aiResponse (pattern4 aiResponse
       (pattern3 aiResponse (pattern2 aiResponse (pattern1 aiResponse (pattern0c aiResponse
         (pattern0b aiResponse (pattern0a aiResponse [])))))))))"

subsection \<open>Category of the correction\<close>

definition verbTensePatterns :: "(string \<times> string) list" where
  "verbTensePatterns =
    [(''cook'', ''cooked''), (''make'', ''made''), (''go'', ''went''), (''do'', ''did''),
     (''have'', ''had''), (''is'', ''was''), (''are'', ''were''), (''eat'', ''ate''),
     (''drink'', ''drank''), (''see'', ''saw''), (''come'', ''came''),
     (''take'', ''took''), (''get'', ''got''), (''buy'', ''bought''),
     (''think'', ''thought''), (''say'', ''said''), (''tell'', ''told''),
     (''give'', ''gave''), (''find'', ''found''), (''know'', ''knew''), (''put'', ''put''),
     (''run'', ''ran''), (''write'', ''wrote''), (''read'', ''read''),
     (''speak'', ''spoke''), (''meet'', ''met''), (''sit'', ''sat''),
     (''stand'', ''stood''), (''hear'', ''heard''), (''sleep'', ''slept''),
     (''wake'', ''woke''), (''begin'', ''began''), (''break'', ''broke''),
     (''bring'', ''brought''), (''build'', ''built''), (''catch'', ''caught''),
     (''choose'', ''chose''), (''draw'', ''drew''), (''drive'', ''drove''),
     (''fall'', ''fell''), (''feel'', ''felt''), (''fly'', ''flew''),
     (''forget'', ''forgot''), (''grow'', ''grew''), (''hang'', ''hung''),
     (''hold'', ''held''), (''keep'', ''kept''), (''leave'', ''left''),
     (''lend'', ''lent''), (''let'', ''let''), (''lie'', ''lay''), (''lose'', ''lost''),
     (''pay'', ''paid''), (''ride'', ''rode''), (''ring'', ''rang''), (''rise'', ''rose''),
     (''sell'', ''sold''), (''send'', ''sent''), (''shine'', ''shone''),
     (''show'', ''showed''), (''sing'', ''sang''), (''sink'', ''sank''),
     (''spend'', ''spent''), (''steal'', ''stole''), (''swim'', ''swam''),
     (''swing'', ''swung''), (''teach'', ''taught''), (''throw'', ''threw''),
     (''understand'', ''understood''), (''wear'', ''wore''), (''win'', ''won'')]"

definition wordChoicePatterns :: "(string \<times> string) list" where
  "wordChoicePatterns =
    [(''did'', ''made''), (''did'', ''had''), (''make'', ''do''), (''do'', ''make''),
     (''say'', ''tell''), (''tell'', ''say''), (''see'', ''watch''), (''watch'', ''see''),
     (''hear'', ''listen''), (''listen'', ''hear''), (''big'', ''large''),
     (''small'', ''little''), (''fast'', ''quick'')]"

text \<open>The two loops over the tables, each left at the first entry that applies.\<close>

fun verbTenseLoop :: "string \<Rightarrow> string \<Rightarrow> (string \<times> string) list \<Rightarrow> bool" where
  "verbTenseLoop origLower corrLower [] = False"
| "verbTenseLoop origLower corrLower ((base, past) # verbs) =
     (if (includes_str origLower ('' '' @ base @ '' '') \<or>
          includes_str origLower ('' '' @ base @ ''.'') \<or>
          includes_str origLower ('' '' @ base @ '','') \<or>
          startsWith origLower (base @ '' '') \<or>
          endsWith origLower ('' '' @ base)) \<and>
         (includes_str corrLower past \<or> includes_str corrLower (past @ ''ed''))
      then True
      else if includes_str origLower ('' '' @ base @ '' '') \<and>
              includes_str corrLower (base @ ''ed'')
      then True
      else verbTenseLoop origLower corrLower verbs)"

fun wordChoiceLoop :: "string \<Rightarrow> string \<Rightarrow> (string \<times> string) list \<Rightarrow> bool" where
  "wordChoiceLoop origLower corrLower [] = False"
| "wordChoiceLoop origLower corrLower ((wrong, correct) # wcs) =
     (if (includes_str origLower ('' '' @ wrong @ '' '') \<or>
          includes_str origLower ('' '' @ wrong @ ''.'')) \<and>
         includes_str corrLower correct
      then True
      else wordChoiceLoop origLower corrLower wcs)"

text \<open>What the category branches assign.\<close>

record categorized =
  c_errorType :: string
  c_errorSubType :: string
  c_shortFeedback :: string
  c_feedbackType :: string
  c_grammarCategory :: string

definition missingVerbLanguage :: "string \<Rightarrow> string \<Rightarrow> bool" where
  "missingVerbLanguage matchedPattern feedbackLower =
     (includes_str matchedPattern ''need to use'' \<or> includes_str matchedPattern ''verb'' \<or>
      includes_str matchedPattern ''missing'' \<or> includes_str matchedPattern ''right verb'' \<or>
      includes_str feedbackLower ''need a verb'' \<or>
      includes_str feedbackLower ''missing verb'' \<or>
      includes_str feedbackLower ''use the right verb'' \<or>
      includes_str feedbackLower ''we need to use'')"

definition tenseLanguage :: "string \<Rightarrow> string \<Rightarrow> bool" where
  \<open>tenseLanguage matchedPattern feedbackLower =
     (includes_str matchedPattern ''tense'' \<or>
      includes_str matchedPattern ''**had**'' \<or>
      includes_str matchedPattern ''**was**'' \<or>
      includes_str matchedPattern ''**went**'' \<or>
      includes_str feedbackLower ''past tense'' \<or>
      includes_str feedbackLower ''present tense'' \<or>
      includes_str feedbackLower ''"was" vs'' \<or>
      includes_str feedbackLower ''"is" vs'' \<or>
      includes_str feedbackLower ''we use "was"'' \<or>
      includes_str feedbackLower ''we use "had"'' \<or>
      includes_str feedbackLower ''already happened'' \<or>
      includes_str feedbackLower ''since the'' \<or>
      includes_str feedbackLower ''because it already'')\<close>

definition naturalnessLanguage :: "string \<Rightarrow> string \<Rightarrow> bool \<Rightarrow> bool \<Rightarrow> bool" where
  "naturalnessLanguage matchedPattern feedbackLower isVerbTenseError isWordChoiceError =
     (includes_str matchedPattern ''smoother'' \<or> includes_str matchedPattern ''natural'' \<or>
      (includes_str feedbackLower ''more natural'' \<and> \<not> isVerbTenseError \<and>
       \<not> isWordChoiceError) \<or>
      includes_str feedbackLower ''sounds better'')"

definition moreCommonLanguage :: "string \<Rightarrow> string \<Rightarrow> bool" where
  "moreCommonLanguage matchedPattern feedbackLower =
     (includes_str matchedPattern ''more common'' \<or> includes_str feedbackLower ''more common'')"

definition categorize :: "string \<Rightarrow> string \<Rightarrow> string \<Rightarrow> string \<Rightarrow> categorized" where
  "categorize matchedPattern feedbackLower originalText correctedText =
     (if missingVerbLanguage matchedPattern feedbackLower then
        \<lparr>c_errorType = ''grammar'', c_errorSubType = ''grammar_sentence_structure'',
         c_shortFeedback = ''Grammar error: Missing verb'', c_feedbackType = ''warning'',
         c_grammarCategory = ''grammar_sentence_structure''\<rparr>
      else if tenseLanguage matchedPattern feedbackLower then
        \<lparr>c_errorType = ''grammar'', c_errorSubType = ''grammar_tense_verb'',
         c_shortFeedback = ''Grammar error: Verb tense'', c_feedbackType = ''warning'',
         c_grammarCategory = ''grammar_tense_verb''\<rparr>
      else if includes_str feedbackLower ''article'' then
        \<lparr>c_errorType = ''grammar'', c_errorSubType = ''prepositions_articles'',
         c_shortFeedback = ''Grammar error: Article usage'', c_feedbackType = ''warning'',
         c_grammarCategory = ''prepositions_articles''\<rparr>
      else if includes_str feedbackLower ''preposition'' then
        \<lparr>c_errorType = ''grammar'', c_errorSubType = ''prepositions_articles'',
         c_shortFeedback = ''Grammar error: Preposition'', c_feedbackType = ''warning'',
         c_grammarCategory = ''prepositions_articles''\<rparr>
      else
        (let origLower = toLowerCase originalText;
             corrLower = toLowerCase correctedText;
             isVerbTenseError = verbTenseLoop origLower corrLower verbTensePatterns;
             isWordChoiceError = wordChoiceLoop origLower corrLower wordChoicePatterns
         in if isVerbTenseError then
              \<lparr>c_errorType = ''grammar'', c_errorSubType = ''grammar_tense_verb'',
               c_shortFeedback = ''Grammar error: Verb tense'', c_feedbackType = ''warning'',
               c_grammarCategory = ''grammar_tense_verb''\<rparr>
            else if isWordChoiceError then
              \<lparr>c_errorType = ''vocabulary'', c_errorSubType = ''vocabulary_word_choice'',
               c_shortFeedback = ''Vocabulary: Word choice'', c_feedbackType = ''warning'',
               c_grammarCategory = ''vocabulary_word_choice''\<rparr>
            else if naturalnessLanguage matchedPattern feedbackLower isVerbTenseError
                      isWordChoiceError then
              \<lparr>c_errorType = ''fluency'', c_errorSubType = ''fluency_naturalness'',
               c_shortFeedback = ''Suggestion: More natural phrasing'',
               c_feedbackType = ''info'', c_grammarCategory = ''fluency_naturalness''\<rparr>
            else if moreCommonLanguage matchedPattern feedbackLower then
              \<lparr>c_errorType = ''grammar'', c_errorSubType = ''grammar_tense_verb'',
               c_shortFeedback = ''Grammar suggestion: Common usage'',
               c_feedbackType = ''warning'', c_grammarCategory = ''grammar_tense_verb''\<rparr>
            else
              \<lparr>c_errorType = ''grammar'', c_errorSubType = ''grammar_sentence_structure'',
               c_shortFeedback = ''Grammar correction suggested'',
               c_feedbackType = ''warning'',
               c_grammarCategory = ''grammar_sentence_structure''\<rparr>))"

text \<open>The display names of the source have an en dash after \<^verbatim>\<open>Grammar\<close>, a character
  outside the modelled range; it is written as a hyphen here.\<close>

definition categoryDisplayNames :: "(string \<times> string) list" where
  "categoryDisplayNames =
    [(''grammar_tense_verb'', ''Grammar - Tense & Verb Forms''),
     (''grammar_sentence_structure'', ''Grammar - Sentence Structure''),
     (''vocabulary_word_choice'', ''Vocabulary & Word Choice''),
     (''prepositions_articles'', ''Prepositions & Articles''),
     (''word_order'', ''Word Order''),
     (''spelling_form'', ''Spelling / Form Errors''),
     (''fluency_naturalness'', ''Fluency & Naturalness''),
     (''clarity_meaning'', ''Clarity & Meaning'')]"

definition categoryNames :: "(string \<times> string) list" where
  "categoryNames =
    [(''verb_tense'', ''verb tense''),
     (''agreement'', ''subject-verb agreement''),
     (''article_determiner'', ''article usage''),
     (''preposition'', ''preposition''),
     (''sentence_structure'', ''sentence structure''),
     (''verb_form'', ''verb form''),
     (''pronoun_reference'', ''pronoun reference'')]"

subsection \<open>The chat handler's classification\<close>

text \<open>A template literal prints an undefined value as the word \<^verbatim>\<open>undefined\<close>.\<close>

definition tmpl :: "string option \<Rightarrow> string" where
  "tmpl v = (case v of None \<Rightarrow> ''undefined'' | Some s \<Rightarrow> s)"

text \<open>The test that guards the structured branch: the list is not empty and its first
  entry has a non-empty original and corrected text. The test reads
  \<^verbatim>\<open>mistakes[0].original_text\<close>, which throws when the first entry is \<^verbatim>\<open>null\<close>.\<close>

definition structuredGuard :: "entry list \<Rightarrow> error + bool" where
  "structuredGuard ms =
     (case ms of
        [] \<Rightarrow> Inr False
      | Null # _ \<Rightarrow> Inl TypeError
      | Obj m # _ \<Rightarrow> Inr (truthy (original_text m) \<and> truthy (corrected_text m)))"

text \<open>The callback of \<^verbatim>\<open>mistakes.map\<close> in the structured branch. It reads
  \<^verbatim>\<open>m.category\<close> first, which throws when the entry is \<^verbatim>\<open>null\<close>.\<close>

definition normalizeMistake :: "string option \<Rightarrow> entry \<Rightarrow> error + entry" where
  \<open>normalizeMistake grammarCategory e =
     (case e of
        Null \<Rightarrow> Inl TypeError
      | Obj m \<Rightarrow>
          Inr (Obj
            \<lparr>category = Some (orStr (category m) ''grammar''),
             category_display = None,
             sub_category =
               Some (orStr (orElse (orElse (grammar_category m) (sub_category m))
                              grammarCategory)
                       ''general''),
             grammar_category =
               Some (orStr (orElse (grammar_category m) grammarCategory) ''general''),
             original_part = original_text m,
             original_text = original_text m,
             corrected_version = corrected_text m,
             corrected_text = corrected_text m,
             short_explanation =
               Some (orStr (explanation m) (''Corrected: "'' @ tmpl (corrected_text m) @ ''"'')),
             explanation = None,
             severity = Some (orStr (severity m) ''medium'')\<rparr>))\<close>

text \<open>\<^verbatim>\<open>Array.prototype.map\<close> with a callback that may throw: the entries are visited in
  order, and the first exception ends the loop.\<close>

fun mapE :: "('a \<Rightarrow> error + 'b) \<Rightarrow> 'a list \<Rightarrow> error + 'b list" where
  "mapE f [] = Inr []"
| "mapE f (x # xs) =
     (case f x of
        Inl e \<Rightarrow> Inl e
      | Inr y \<Rightarrow> (case mapE f xs of Inl e \<Rightarrow> Inl e | Inr ys \<Rightarrow> Inr (y # ys)))"

definition extractedMistake :: "string \<Rightarrow> string \<Rightarrow> string \<Rightarrow> string \<Rightarrow> mistake" where
  \<open>extractedMistake errorSubType grammarCategory originalText correctedText =
     \<lparr>category = Some errorSubType,
      category_display =
        Some (case map_of categoryDisplayNames errorSubType of
                Some d \<Rightarrow> d | None \<Rightarrow> ''Grammar''),
      sub_category = Some errorSubType,
      grammar_category = Some grammarCategory,
      original_part = Some originalText,
      original_text = Some originalText,
      corrected_version =
        Some (if correctedText \<noteq> [] then correctedText
              else ''See AI suggestion in the response''),
      corrected_text =
        Some (if correctedText \<noteq> [] then correctedText
              else ''See AI suggestion in the response''),
      short_explanation =
        Some (if correctedText \<noteq> [] then ''Use "'' @ correctedText @ ''" instead''
              else ''Check the AI response for the correct form''),
      explanation =
        Some (if correctedText \<noteq> []
              then ''Use "'' @ correctedText @ ''" instead of "'' @ originalText @ ''"''
              else ''Check the AI response for the correct form''),
      severity = Some ''medium''\<rparr>\<close>

text \<open>The handler's local variables after the classification of a turn.\<close>

record turn =
  detectedCorrection :: bool
  matchedPattern :: string
  shortFeedback :: string
  feedbackType :: string
  sentenceStatus :: string
  mistakes :: "entry list"
  grammarCategory :: "string option"
  errorSubType :: string

text \<open>Server-side correction detection and the initial values of the variables.\<close>

definition initialTurn :: "analysis \<Rightarrow> turn" where
  "initialTurn a =
     (let feedbackLower = toLowerCase (an_feedback a);
          found = detect feedbackLower correctionPatterns
      in \<lparr>detectedCorrection = (found \<noteq> None),
          matchedPattern = (case found of None \<Rightarrow> [] | Some pattern \<Rightarrow> pattern),
          shortFeedback = orStr (an_short_feedback a) [],
          feedbackType = orStr (an_feedback_type a) ''success'',
          sentenceStatus = orStr (an_sentence_status a) ''correct'',
          mistakes = an_mistakes a,
          grammarCategory = orElse (an_grammar_category a) None,
          errorSubType = ''general''\<rparr>)"

text \<open>The branch that uses the structured mistakes of the AI.\<close>

definition structuredBranch :: "turn \<Rightarrow> error + turn" where
  "structuredBranch t =
     (case mapE (normalizeMistake (grammarCategory t)) (mistakes t) of
        Inl e \<Rightarrow> Inl e
      | Inr normalized \<Rightarrow>
          Inr (t\<lparr>mistakes := normalized,
                 shortFeedback :=
                   (case grammarCategory t of
                      None \<Rightarrow> shortFeedback t
                    | Some g \<Rightarrow>
                        ''Grammar issue: '' @
                          (case map_of categoryNames g of
                             Some n \<Rightarrow> if n = [] then g else n
                           | None \<Rightarrow> g))\<rparr>))"

text \<open>The branch that extracts the correction from the text of the AI.\<close>

definition extractionBranch :: "string \<Rightarrow> string \<Rightarrow> turn \<Rightarrow> turn" where
  "extractionBranch text aiResponse t =
     (let originalText = text;
          correctedText = extractCorrected aiResponse;
          c = categorize (matchedPattern t) (toLowerCase aiResponse) originalText correctedText
      in t\<lparr>sentenceStatus := ''has_errors'',
           feedbackType := c_feedbackType c,
           errorSubType := c_errorSubType c,
           shortFeedback := c_shortFeedback c,
           grammarCategory := Some (c_grammarCategory c),
           mistakes :=
             [Obj (extractedMistake (c_errorSubType c) (c_grammarCategory c) originalText
                     correctedText)]\<rparr>)"

text \<open>The default short feedback.\<close>

definition defaultFeedback :: "turn \<Rightarrow> turn" where
  "defaultFeedback t =
     (if shortFeedback t = [] then
        (if sentenceStatus t = ''has_errors'' \<or> mistakes t \<noteq> []
         then t\<lparr>shortFeedback := ''Grammar issue detected'', feedbackType := ''warning''\<rparr>
         else t\<lparr>shortFeedback := ''Perfect! No grammar mistakes detected.'',
                feedbackType := ''success''\<rparr>)
      else t)"

text \<open>The classification of a turn: the code of the chat handler from the detection of
  a correction to the default short feedback. It ends with the values of the variables,
  or with the exception that the guard or the structured branch throws.\<close>

definition classify :: "string \<Rightarrow> analysis \<Rightarrow> error + turn" where
  "classify text a =
     (let t = initialTurn a
      in case structuredGuard (mistakes t) of
           Inl e \<Rightarrow> Inl e
         | Inr True \<Rightarrow>
             (case structuredBranch t of
                Inl e \<Rightarrow> Inl e
              | Inr t' \<Rightarrow> Inr (defaultFeedback t'))
         | Inr False \<Rightarrow>
             Inr (defaultFeedback
                    (if detectedCorrection t \<and> sentenceStatus t = ''correct'' \<and> mistakes t = []
                     then extractionBranch text (an_feedback a) t
                     else t)))"

text \<open>Score bookkeeping of a classified turn.\<close>

definition hadCorrection :: "turn \<Rightarrow> bool" where
  "hadCorrection t =
     (sentenceStatus t = ''has_errors'' \<or> mistakes t \<noteq> [] \<or> detectedCorrection t)"

definition isFlencyOnly :: "turn \<Rightarrow> bool" where
  "isFlencyOnly t =
     (grammarCategory t = Some ''fluency_naturalness'' \<or>
      errorSubType t = ''fluency_naturalness'')"

definition countsAsIncorrect :: "turn \<Rightarrow> bool" where
  "countsAsIncorrect t = (hadCorrection t \<and> \<not> isFlencyOnly t)"

text \<open>The loop that saves the mistakes of a turn reads \<^verbatim>\<open>mistake.original_part\<close> of each
  entry in order, which throws at an entry that is \<^verbatim>\<open>null\<close>. The calls of the repository
  themselves are outside the model.\<close>

fun saveMistakes :: "entry list \<Rightarrow> error + unit" where
  "saveMistakes [] = Inr ()"
| "saveMistakes (Null # ms) = Inl TypeError"
| "saveMistakes (Obj m # ms) = saveMistakes ms"

section \<open>JavaScript numbers\<close>

text \<open>
  A number is an IEEE 754 double. The finite doubles are modelled by the rationals they
  denote, and every arithmetic operation rounds its exact result to the nearest double,
  ties to the even significand (53 bits). The exponent range is not modelled: the values
  of this program stay far inside it. \<open>expo x\<close> is the exponent \<open>e\<close> with
  \<open>2\<^sup>e \<le> x < 2\<^sup>e\<^sup>+\<^sup>1\<close>.
\<close>

function expo_up :: "rat \<Rightarrow> int" where
  "expo_up x = (if 2 \<le> x then expo_up (x / 2) + 1 else 0)"
  by pat_completeness auto
termination
proof (relation "measure (\<lambda>x. nat \<lfloor>x\<rfloor>)")
  show "wf (measure (\<lambda>x::rat. nat \<lfloor>x\<rfloor>))" by simp
next
  fix x :: rat
  assume h: "2 \<le> x"
  have "x / 2 \<le> x - 1" using h by simp
  then have "\<lfloor>x / 2\<rfloor> \<le> \<lfloor>x - 1\<rfloor>" by (rule floor_mono)
  moreover have "1 \<le> \<lfloor>x\<rfloor>" using h by linarith
  ultimately show "(x / 2, x) \<in> measure (\<lambda>x. nat \<lfloor>x\<rfloor>)" by simp
qed

function expo_down :: "rat \<Rightarrow> int" where
  "expo_down x = (if 0 < x \<and> x < 1 then expo_down (x * 2) - 1 else 0)"
  by pat_completeness auto
termination
proof (relation "measure (\<lambda>x. nat \<lceil>1 / x\<rceil>)")
  show "wf (measure (\<lambda>x::rat. nat \<lceil>1 / x\<rceil>))" by simp
next
  fix x :: rat
  assume h: "0 < x \<and> x < 1"
  then have y: "1 < 1 / x" by simp
  then have c2: "2 \<le> \<lceil>1 / x\<rceil>" by linarith
  have "1 / (x * 2) = (1 / x) / 2" by simp
  also have "\<dots> \<le> of_int \<lceil>1 / x\<rceil> / 2" by (simp add: divide_right_mono)
  also have "\<dots> \<le> of_int (\<lceil>1 / x\<rceil> - 1)" using c2 by simp
  finally have "\<lceil>1 / (x * 2)\<rceil> \<le> \<lceil>1 / x\<rceil> - 1" by (simp only: ceiling_le_iff)
  then show "(x * 2, x) \<in> measure (\<lambda>x. nat \<lceil>1 / x\<rceil>)" using c2 h by simp
qed

declare expo_up.simps [simp del] expo_down.simps [simp del]

definition expo :: "rat \<Rightarrow> int" where
  "expo x = (if 1 \<le> x then expo_up x else expo_down x)"

text \<open>Rounding to the nearest integer, ties to even.\<close>

definition rnd_even :: "rat \<Rightarrow> int" where
  "rnd_even x =
     (let f = \<lfloor>x\<rfloor>; d = x - of_int f
      in if d < 1 / 2 then f else if 1 / 2 < d then f + 1 else if even f then f else f + 1)"

definition ulp :: "rat \<Rightarrow> rat" where
  "ulp x = 2 powi (expo \<bar>x\<bar> - 52)"

text \<open>The double nearest to a rational.\<close>

definition fl :: "rat \<Rightarrow> rat" where
  "fl x = (if x = 0 then 0 else of_int (rnd_even (x / ulp x)) * ulp x)"

definition fdiv :: "rat \<Rightarrow> rat \<Rightarrow> rat" where
  "fdiv a b = fl (a / b)"

definition fmul :: "rat \<Rightarrow> rat \<Rightarrow> rat" where
  "fmul a b = fl (a * b)"

definition fadd :: "rat \<Rightarrow> rat \<Rightarrow> rat" where
  "fadd a b = fl (a + b)"

text \<open>\<^verbatim>\<open>Math.round\<close>: the nearest integer, a tie going up.\<close>

definition Math_round :: "rat \<Rightarrow> int" where
  "Math_round x = \<lfloor>x + 1 / 2\<rfloor>"

section \<open>The server\<close>

text \<open>
  The module state of \<^verbatim>\<open>server.ts\<close> that the session routes share: the two counters,
  the topic of the current session, and the recording flag that
  \<^verbatim>\<open>sessionController.isSessionRecording()\<close> returns. The counters are numbers that
  only count up from zero; they are exact below \<open>2\<^sup>5\<^sup>3\<close> and modelled as naturals.
  The flag is the private field \<^verbatim>\<open>isRecording\<close> of the class \<^verbatim>\<open>SessionController\<close>,
  which \<^verbatim>\<open>startRecording\<close> sets when a user and a topic are set, and \<^verbatim>\<open>sessionEnded\<close>
  clears when there is a session. The start route and the end route call these two
  methods; the value of the flag after the call is a parameter of the route, so that what
  is proved holds for every behaviour of the controller (in the server as written
  \<^verbatim>\<open>setCurrentUser\<close> is never called, so the flag stays false). The repositories
  (persistence) are outside the model; their calls are taken to return.
\<close>

record topicInfo =
  ti_name :: string
  ti_description :: string
  ti_category :: string
  ti_difficulty :: string
  ti_targetLanguage :: string

record server_state =
  serverMessageCount :: nat
  serverIncorrectCount :: nat
  currentTopicInfo :: "topicInfo option"
  isSessionRecording :: bool

definition initial_state :: "bool \<Rightarrow> server_state" where
  "initial_state recording =
     \<lparr>serverMessageCount = 0, serverIncorrectCount = 0, currentTopicInfo = None,
      isSessionRecording = recording\<rparr>"

text \<open>An HTTP response: an error status with its message, or the JSON body of a
  success.\<close>

datatype 'a response = Status401 string | Status400 string | Status500 string | Ok200 'a

text \<open>The score that the chat route and the end route compute from the counters.\<close>

definition serverScore :: "server_state \<Rightarrow> int" where
  "serverScore st =
     (let serverCorrectCount = (of_nat (serverMessageCount st) :: rat)
                               - of_nat (serverIncorrectCount st)
      in if 0 < serverMessageCount st
         then Math_round (fmul (fdiv serverCorrectCount (of_nat (serverMessageCount st))) 100)
         else 100)"

subsection \<open>\<^verbatim>\<open>POST /api/session/start\<close>\<close>

definition sessionStart ::
  "server_state \<Rightarrow> nat option \<Rightarrow> nat \<Rightarrow> topicInfo \<Rightarrow> bool \<Rightarrow> server_state \<times> unit response"
where
  "sessionStart st tokenUser topicId topic recording =
     (case tokenUser of
        None \<Rightarrow> (st, Status401 ''Please login first'')
      | Some userId \<Rightarrow>
          if topicId = 0 then (st, Status400 ''Topic ID is required'')
          else (st\<lparr>currentTopicInfo := Some topic, isSessionRecording := recording,
                    serverMessageCount := 0, serverIncorrectCount := 0\<rparr>,
                Ok200 ()))"

subsection \<open>\<^verbatim>\<open>POST /api/session/chat\<close>\<close>

record chat_body =
  cb_userText :: string
  cb_aiResponse :: string
  cb_turn :: turn
  cb_hadCorrection :: bool
  cb_countsAsIncorrect :: bool
  cb_currentScore :: int
  cb_messagesCount :: nat
  cb_correctCount :: int
  cb_incorrectCount :: nat

text \<open>
  The body of the route runs in a \<^verbatim>\<open>try\<close> block: an exception thrown after the message
  was counted is answered with status 500, and the counters keep the values they had when
  it was thrown. The parameter \<open>saving\<close> is the value of
  \<^verbatim>\<open>mysqlAvailable && grammarMistakeRepository && currentConversationId\<close> at the request:
  whether the mistakes of a turn with a correction are saved.
\<close>

definition sessionChat ::
  "server_state \<Rightarrow> nat option \<Rightarrow> string \<Rightarrow> ai_outcome \<Rightarrow> bool \<Rightarrow>
     server_state \<times> chat_body response"
where
  "sessionChat st tokenUser text outcome saving =
     (case tokenUser of
        None \<Rightarrow> (st, Status401 ''Please login first'')
      | Some userId \<Rightarrow>
          if currentTopicInfo st = None \<and> \<not> isSessionRecording st
          then (st, Status400 ''No active session. Please start a session first.'')
          else
            (let st1 = st\<lparr>serverMessageCount := serverMessageCount st + 1\<rparr>;
                 a = analyzeAndRespond outcome
             in case classify text a of
                  Inl e \<Rightarrow> (st1, Status500 ''Error generating response'')
                | Inr t \<Rightarrow>
                    (let st2 = (if countsAsIncorrect t
                                then st1\<lparr>serverIncorrectCount := serverIncorrectCount st1 + 1\<rparr>
                                else st1)
                     in case (if hadCorrection t \<and> saving then saveMistakes (mistakes t)
                              else Inr ()) of
                          Inl e \<Rightarrow> (st2, Status500 ''Error generating response'')
                        | Inr _ \<Rightarrow>
                            (st2,
                             Ok200 \<lparr>cb_userText = text, cb_aiResponse = an_feedback a,
                                    cb_turn = t,
                                    cb_hadCorrection = hadCorrection t,
                                    cb_countsAsIncorrect = countsAsIncorrect t,
                                    cb_currentScore = serverScore st2,
                                    cb_messagesCount = serverMessageCount st2,
                                    cb_correctCount =
                                      int (serverMessageCount st2) -
                                      int (serverIncorrectCount st2),
                                    cb_incorrectCount = serverIncorrectCount st2\<rparr>))))"

subsection \<open>\<^verbatim>\<open>POST /api/session/end\<close>\<close>

record end_body =
  eb_correctSentences :: int
  eb_incorrectSentences :: nat
  eb_totalSentences :: nat
  eb_accuracyScore :: int

definition sessionEnd ::
  "server_state \<Rightarrow> nat option \<Rightarrow> bool \<Rightarrow> server_state \<times> end_body response"
where
  "sessionEnd st tokenUser recording =
     (case tokenUser of
        None \<Rightarrow> (st, Status401 ''Please login first'')
      | Some userId \<Rightarrow>
          (st\<lparr>isSessionRecording := recording\<rparr>,
           Ok200 \<lparr>eb_correctSentences =
                    int (serverMessageCount st) - int (serverIncorrectCount st),
                  eb_incorrectSentences = serverIncorrectCount st,
                  eb_totalSentences = serverMessageCount st,
                  eb_accuracyScore = serverScore st\<rparr>))"

subsection \<open>Runs of the server\<close>

datatype request =
    Start "nat option" nat topicInfo bool
  | Chat "nat option" string ai_outcome bool
  | End "nat option" bool

fun handle :: "server_state \<Rightarrow> request \<Rightarrow> server_state" where
  "handle st (Start tokenUser topicId topic recording) =
     fst (sessionStart st tokenUser topicId topic recording)"
| "handle st (Chat tokenUser text outcome saving) =
     fst (sessionChat st tokenUser text outcome saving)"
| "handle st (End tokenUser recording) = fst (sessionEnd st tokenUser recording)"

text \<open>The state after a sequence of requests, served one after the other.\<close>

definition run :: "server_state \<Rightarrow> request list \<Rightarrow> server_state" where
  "run st reqs = foldl handle st reqs"

section \<open>The feedback engine\<close>

text \<open>\<^verbatim>\<open>s.split(r)\<close> for an expression \<open>r\<close> that matches the non-empty runs of one class of
  characters: the pieces between the runs, an empty piece before a leading and after a
  trailing run included.\<close>

function splitRuns :: "(char \<Rightarrow> bool) \<Rightarrow> string \<Rightarrow> string \<Rightarrow> string list" where
  "splitRuns sep piece [] = [rev piece]"
| "splitRuns sep piece (c # cs) =
     (if sep c then rev piece # splitRuns sep [] (dropWhile sep cs)
      else splitRuns sep (c # piece) cs)"
  by pat_completeness auto
termination
  by (relation "measure (\<lambda>(sep, piece, s). length s)")
     (auto simp add: length_dropWhile_le less_Suc_eq_le)

definition split_sentences :: "string \<Rightarrow> string list" where
  "split_sentences s = splitRuns (\<lambda>c. c = CHR ''.'' \<or> c = CHR ''!'' \<or> c = CHR ''?'') [] s"

definition split_words :: "string \<Rightarrow> string list" where
  "split_words s = splitRuns isSpace [] s"

definition grammarPatterns :: "rx list" where
  "grammarPatterns =
     [seqs [WordB, Chr CHR ''i'', spaces1, lit ''is'', WordB],
      seqs [WordB, lit ''he'', spaces1, lit ''are'', WordB],
      seqs [WordB, lit ''she'', spaces1, lit ''are'', WordB],
      seqs [WordB, lit ''they'', spaces1, lit ''is'', WordB],
      seqs [WordB, lit ''does'', spaces1, word_rx, Chr CHR ''s'', WordB],
      seqs [WordB, lit ''more'', spaces1, word_rx, lit ''er'', WordB]]"

text \<open>\<^verbatim>\<open>analyzeSentenceStructure\<close>, with the number that \<^verbatim>\<open>Math.random()\<close> returns when
  it is called.\<close>

definition analyzeSentenceStructure :: "rat \<Rightarrow> string \<Rightarrow> rat" where
  "analyzeSentenceStructure random sentence =
     (let wordList = split_words (trim sentence)
      in if length wordList < 3 then 60
         else if 25 < length wordList then 70
         else fadd 85 (fmul random 15))"

text \<open>The running state of \<^verbatim>\<open>evaluateGrammar\<close>: the score, the issues, and how many
  random numbers were drawn.\<close>

record grammar_state =
  totalScore :: int
  issues :: "string list"
  drawn :: nat

definition patternStep :: "string \<Rightarrow> grammar_state \<Rightarrow> rx \<Rightarrow> grammar_state" where
  "patternStep transcribedText g pattern =
     (if rx_test True pattern transcribedText
      then g\<lparr>totalScore := totalScore g - 10,
             issues := issues g @ [''Grammar issue detected'']\<rparr>
      else g)"

definition usesRandom :: "string \<Rightarrow> bool" where
  "usesRandom sentence =
     (let n = length (split_words (trim sentence)) in \<not> n < 3 \<and> \<not> 25 < n)"

definition sentenceStep :: "(nat \<Rightarrow> rat) \<Rightarrow> grammar_state \<Rightarrow> string \<Rightarrow> grammar_state" where
  "sentenceStep random g sentence =
     (if trim sentence \<noteq> [] then
        (let sentenceScore = analyzeSentenceStructure (random (drawn g)) sentence;
             g1 = (if usesRandom sentence then g\<lparr>drawn := drawn g + 1\<rparr> else g)
         in if sentenceScore < 80
            then g1\<lparr>totalScore := totalScore g1 - 5,
                    issues := issues g1 @ [''Sentence structure needs improvement'']\<rparr>
            else g1)
      else g)"

definition grammarRun :: "(nat \<Rightarrow> rat) \<Rightarrow> string \<Rightarrow> grammar_state" where
  "grammarRun random transcribedText =
     foldl (sentenceStep random)
       (foldl (patternStep transcribedText)
          \<lparr>totalScore = 100, issues = [], drawn = 0\<rparr> grammarPatterns)
       (split_sentences transcribedText)"

text \<open>The score that \<^verbatim>\<open>evaluateGrammar\<close> returns, without its time stamp.\<close>

record score =
  sc_value :: int
  sc_category :: string
  sc_details :: string

definition evaluateGrammar :: "(nat \<Rightarrow> rat) \<Rightarrow> string \<Rightarrow> score" where
  "evaluateGrammar random transcribedText =
     (let g = grammarRun random transcribedText
      in \<lparr>sc_value = max 0 (totalScore g),
          sc_category = ''grammar'',
          sc_details =
            (if issues g \<noteq> [] then ''Issues found: '' @ join ''; '' (take 3 (issues g))
             else ''Grammar is correct!'')\<rparr>)"

section \<open>Definitions for the statements\<close>



subsection \<open>Sample inputs\<close>

text \<open>A topic, a state with an active session, a mistake without and one with a corrected
  text, an analysis with given mistakes and feedback, an outcome in which the AI lists
  a complete mistake and gives no sentence status, one in which its list holds
  \<^verbatim>\<open>null\<close>, and one in which \<^verbatim>\<open>null\<close> follows an incomplete mistake.\<close>

definition someTopic :: topicInfo where
  "someTopic = \<lparr>ti_name = ''General Conversation'', ti_description = [],
     ti_category = ''general'', ti_difficulty = ''intermediate'',
     ti_targetLanguage = ''English''\<rparr>"

definition activeState :: "nat \<Rightarrow> nat \<Rightarrow> server_state" where
  "activeState messageCount incorrectCount =
     \<lparr>serverMessageCount = messageCount, serverIncorrectCount = incorrectCount,
      currentTopicInfo = Some someTopic, isSessionRecording = True\<rparr>"

definition onlyOriginal :: mistake where
  "onlyOriginal = no_fields\<lparr>original_text := Some ''goed''\<rparr>"

definition bothTexts :: mistake where
  "bothTexts = no_fields\<lparr>original_text := Some ''goed'', corrected_text := Some ''went''\<rparr>"


definition listsMistake :: ai_outcome where
  "listsMistake = Json ''{}'' (Some ''Nice!'') None (Some [Obj bothTexts])"

definition listsNull :: ai_outcome where
  "listsNull = Json ''{}'' (Some ''Nice!'') None (Some [Null])"

definition listsHalfAndNull :: ai_outcome where
  "listsHalfAndNull = Json ''{}'' (Some ''Nice!'') None (Some [Obj onlyOriginal, Null])"

subsection \<open>The extraction cascade as a list\<close>

text \<open>The first non-empty text of a list.\<close>

fun firstNonEmpty :: "string list \<Rightarrow> string option" where
  "firstNonEmpty [] = None"
| "firstNonEmpty (x # xs) = (if x \<noteq> [] then Some x else firstNonEmpty xs)"

text \<open>What each pattern of the source yields on a feedback text, in the order of the
  source: the quoted text after \<^verbatim>\<open>more common to say\<close>, the quoted text after
  \<^verbatim>\<open>it would be\<close>, the bold words, the quoted first-person sentence, the quoted text
  after \<^verbatim>\<open>you could say\<close>, the quoted clause with a verb, the quoted \<^verbatim>\<open>It was/is\<close> clause,
  the \<^verbatim>\<open>I'm about to\<close> clause, the bulleted quote, the text after \<^verbatim>\<open>should be/say\<close>.\<close>

definition cascade :: "string \<Rightarrow> string list" where
  "cascade aiResponse =
     [pattern0a aiResponse [], pattern0b aiResponse [], pattern0c aiResponse [],
      pattern1 aiResponse [], pattern2 aiResponse [], pattern3 aiResponse [],
      pattern4 aiResponse [], pattern6 aiResponse [], pattern7 aiResponse [],
      pattern8 aiResponse []]"

text \<open>The nine patterns that the specification lists, in its order.\<close>

definition claimedCascade :: "string \<Rightarrow> string list" where
  "claimedCascade aiResponse =
     [pattern0a aiResponse [], pattern0b aiResponse [], pattern0c aiResponse [],
      pattern1 aiResponse [], pattern2 aiResponse [], pattern3 aiResponse [],
      pattern4 aiResponse [], pattern7 aiResponse [], pattern8 aiResponse []]"

definition placeholder :: string where
  "placeholder = ''See AI suggestion in the response''"

definition keep :: "string \<Rightarrow> string \<Rightarrow> string" where
  "keep correctedText v = (if correctedText = [] then v else correctedText)"

subsection \<open>The category tests as a list\<close>

text \<open>The first rule of a list whose condition holds.\<close>

fun firstMatch :: "(bool \<times> 'a) list \<Rightarrow> 'a option" where
  "firstMatch [] = None"
| "firstMatch ((c, v) # rules) = (if c then Some v else firstMatch rules)"

text \<open>The tests of the source in their order, each with the error subtype and the short
  feedback that it assigns.\<close>

definition categoryRules ::
  "string \<Rightarrow> string \<Rightarrow> string \<Rightarrow> string \<Rightarrow> (bool \<times> string \<times> string) list"
where
  "categoryRules found feedbackLower originalText correctedText =
     [(missingVerbLanguage found feedbackLower,
         ''grammar_sentence_structure'', ''Grammar error: Missing verb''),
      (tenseLanguage found feedbackLower,
         ''grammar_tense_verb'', ''Grammar error: Verb tense''),
      (includes_str feedbackLower ''article'',
         ''prepositions_articles'', ''Grammar error: Article usage''),
      (includes_str feedbackLower ''preposition'',
         ''prepositions_articles'', ''Grammar error: Preposition''),
      (verbTenseLoop (toLowerCase originalText) (toLowerCase correctedText) verbTensePatterns,
         ''grammar_tense_verb'', ''Grammar error: Verb tense''),
      (wordChoiceLoop (toLowerCase originalText) (toLowerCase correctedText)
         wordChoicePatterns,
         ''vocabulary_word_choice'', ''Vocabulary: Word choice''),
      (naturalnessLanguage found feedbackLower False False,
         ''fluency_naturalness'', ''Suggestion: More natural phrasing''),
      (moreCommonLanguage found feedbackLower,
         ''grammar_tense_verb'', ''Grammar suggestion: Common usage''),
      (True, ''grammar_sentence_structure'', ''Grammar correction suggested'')]"

text \<open>The taxonomy of the specification, with the names that the source gives the
  categories: articles and prepositions share one.\<close>

datatype taxonomy =
  TenseVerb | SentenceStructure | WordChoice | ArticleDeterminer | Preposition
  | FluencyNaturalness

fun subTypeOf :: "taxonomy \<Rightarrow> string" where
  "subTypeOf TenseVerb = ''grammar_tense_verb''"
| "subTypeOf SentenceStructure = ''grammar_sentence_structure''"
| "subTypeOf WordChoice = ''vocabulary_word_choice''"
| "subTypeOf ArticleDeterminer = ''prepositions_articles''"
| "subTypeOf Preposition = ''prepositions_articles''"
| "subTypeOf FluencyNaturalness = ''fluency_naturalness''"

text \<open>The order of tests that the specification states, (a) to (g).\<close>

definition claimedRules ::
  "string \<Rightarrow> string \<Rightarrow> string \<Rightarrow> string \<Rightarrow> (bool \<times> taxonomy) list"
where
  "claimedRules found feedbackLower originalText correctedText =
     (let verbPair = verbTenseLoop (toLowerCase originalText) (toLowerCase correctedText)
                       verbTensePatterns;
          wordPair = wordChoiceLoop (toLowerCase originalText) (toLowerCase correctedText)
                       wordChoicePatterns
      in [(missingVerbLanguage found feedbackLower, SentenceStructure),
          (tenseLanguage found feedbackLower \<or> verbPair, TenseVerb),
          (wordPair, WordChoice),
          (includes_str feedbackLower ''article'', ArticleDeterminer),
          (includes_str feedbackLower ''preposition'', Preposition),
          (naturalnessLanguage found feedbackLower verbPair wordPair,
             FluencyNaturalness),
          (True, SentenceStructure)])"

subsection \<open>The score of the specification\<close>

text \<open>The score as the specification words it: 100 when no turn was counted, otherwise
  the rounded percentage of the turns that are not incorrect, in exact arithmetic.\<close>

definition specScore :: "nat \<Rightarrow> nat \<Rightarrow> int" where
  "specScore turns incorrect =
     (if turns = 0 then 100
      else round (100 * ((of_nat turns :: rat) - of_nat incorrect) / of_nat turns))"

section \<open>Evaluation of the character functions\<close>

text \<open>The character functions on the bits of a character, as code equations.\<close>

lemma toLowerCase_char_code [code]:
  "toLowerCase_char (Char b0 b1 b2 b3 b4 b5 b6 b7) =
     (if b6 \<and> \<not> b5 \<and>
         (if b7 then \<not> (b0 \<and> b1 \<and> b2 \<and> b4)
          else (b0 \<or> b1 \<or> b2 \<or> b3 \<or> b4) \<and> \<not> (b4 \<and> b3 \<and> (b2 \<or> (b1 \<and> b0))))
      then Char b0 b1 b2 b3 b4 True b6 b7
      else Char b0 b1 b2 b3 b4 b5 b6 b7)"
  by (cases b0; cases b1; cases b2; cases b3; cases b4; cases b5; cases b6; cases b7;
      simp add: toLowerCase_char_def Let_def char_of_eq_iff)

lemma isSpace_code [code]:
  "isSpace (Char b0 b1 b2 b3 b4 b5 b6 b7) =
     (\<not> b6 \<and> \<not> b4 \<and>
      (if b5 then \<not> b0 \<and> \<not> b1 \<and> \<not> b2 \<and> \<not> b3
       else \<not> b7 \<and> b3 \<and> (if b2 then \<not> b1 else b0 \<or> b1)))"
  by (cases b0; cases b1; cases b2; cases b3; cases b4; cases b5; cases b6; cases b7;
      simp add: isSpace_def Let_def)

lemma isWordChar_code [code]:
  "isWordChar (Char b0 b1 b2 b3 b4 b5 b6 b7) =
     (\<not> b7 \<and>
      (if b6 then (b0 \<and> b1 \<and> b2 \<and> b3 \<and> b4 \<and> \<not> b5) \<or>
                  ((b0 \<or> b1 \<or> b2 \<or> b3 \<or> b4) \<and> \<not> (b4 \<and> b3 \<and> (b2 \<or> (b1 \<and> b0))))
       else b5 \<and> b4 \<and> \<not> (b3 \<and> (b2 \<or> b1))))"
  by (cases b0; cases b1; cases b2; cases b3; cases b4; cases b5; cases b6; cases b7;
      simp add: isWordChar_def Let_def)

section \<open>Properties of the classification\<close>

lemma defaultFeedback_keeps [simp]:
  "sentenceStatus (defaultFeedback t) = sentenceStatus t"
  "mistakes (defaultFeedback t) = mistakes t"
  "grammarCategory (defaultFeedback t) = grammarCategory t"
  "errorSubType (defaultFeedback t) = errorSubType t"
  "detectedCorrection (defaultFeedback t) = detectedCorrection t"
  "matchedPattern (defaultFeedback t) = matchedPattern t"
  by (simp_all add: defaultFeedback_def)

lemma initialTurn_fields [simp]:
  "sentenceStatus (initialTurn a) = orStr (an_sentence_status a) ''correct''"
  "mistakes (initialTurn a) = an_mistakes a"
  "grammarCategory (initialTurn a) = orElse (an_grammar_category a) None"
  "errorSubType (initialTurn a) = ''general''"
  "detectedCorrection (initialTurn a) =
     (detect (toLowerCase (an_feedback a)) correctionPatterns \<noteq> None)"
  "shortFeedback (initialTurn a) = orStr (an_short_feedback a) []"
  by (simp_all add: initialTurn_def Let_def)

text \<open>The exceptions of the classification and of the loop that saves the mistakes are
  thrown at an entry that is \<^verbatim>\<open>null\<close>, and only there.\<close>

lemma saveMistakes_eq:
  "saveMistakes ms = (if Null \<in> set ms then Inl TypeError else Inr ())"
  by (induction ms rule: saveMistakes.induct) simp_all

lemma normalizeMistake_Null [simp]: "normalizeMistake g Null = Inl TypeError"
  by (simp add: normalizeMistake_def)

lemma normalizeMistake_Obj: "\<exists>n. normalizeMistake g (Obj m) = Inr (Obj n)"
  by (simp add: normalizeMistake_def)


lemma mapE_objects:
  "Null \<notin> set ms \<Longrightarrow>
     \<exists>ns. mapE (normalizeMistake g) ms = Inr ns \<and> Null \<notin> set ns \<and> length ns = length ms"
proof (induction ms)
  case Nil
  then show ?case by simp
next
  case (Cons e ms)
  then obtain ns where ns: "mapE (normalizeMistake g) ms = Inr ns" "Null \<notin> set ns"
    "length ns = length ms"
    by auto
  from Cons.prems obtain m where m: "e = Obj m"
    by (cases e) simp_all
  obtain n where n: "normalizeMistake g (Obj m) = Inr (Obj n)"
    using normalizeMistake_Obj by blast
  show ?case
    using ns m n by simp
qed

lemma guard_simps [simp]:
  "structuredGuard [] = Inr False"
  "structuredGuard (Null # ms) = Inl TypeError"
  "structuredGuard (Obj m # ms) = Inr (truthy (original_text m) \<and> truthy (corrected_text m))"
  by (simp_all add: structuredGuard_def)

lemma guard_objects:
  "Null \<notin> set ms \<Longrightarrow> \<exists>b. structuredGuard ms = Inr b"
proof (cases ms)
  case Nil
  then show ?thesis by auto
next
  case (Cons e es)
  assume "Null \<notin> set ms"
  then obtain m where "e = Obj m"
    using Cons by (cases e) simp_all
  then show ?thesis
    using Cons by auto
qed




lemma structuredBranch_objects:
  assumes "Null \<notin> set (mistakes t)"
  shows "\<exists>t'. structuredBranch t = Inr t' \<and>
           mapE (normalizeMistake (grammarCategory t)) (mistakes t) = Inr (mistakes t') \<and>
           Null \<notin> set (mistakes t') \<and>
           length (mistakes t') = length (mistakes t) \<and>
           sentenceStatus t' = sentenceStatus t \<and>
           grammarCategory t' = grammarCategory t \<and>
           errorSubType t' = errorSubType t \<and>
           detectedCorrection t' = detectedCorrection t"
proof -
  obtain ns where "mapE (normalizeMistake (grammarCategory t)) (mistakes t) = Inr ns"
    "Null \<notin> set ns" "length ns = length (mistakes t)"
    using mapE_objects [OF assms] by blast
  then show ?thesis
    by (simp add: structuredBranch_def)
qed

lemma classify_structured:
  assumes "structuredGuard (an_mistakes a) = Inr True"
  shows "classify text a =
           (case structuredBranch (initialTurn a) of
              Inl e \<Rightarrow> Inl e
            | Inr t' \<Rightarrow> Inr (defaultFeedback t'))"
  using assms by (simp add: classify_def Let_def)

lemma classify_extraction:
  assumes "detect (toLowerCase (an_feedback a)) correctionPatterns \<noteq> None"
    and "orStr (an_sentence_status a) ''correct'' = ''correct''"
    and "an_mistakes a = []"
  shows "classify text a =
           Inr (defaultFeedback (extractionBranch text (an_feedback a) (initialTurn a)))"
  using assms by (simp add: classify_def Let_def)

lemma classify_neither:
  assumes "structuredGuard (an_mistakes a) = Inr False"
    and "\<not> (detect (toLowerCase (an_feedback a)) correctionPatterns \<noteq> None \<and>
            orStr (an_sentence_status a) ''correct'' = ''correct'' \<and> an_mistakes a = [])"
  shows "classify text a = Inr (defaultFeedback (initialTurn a))"
  using assms by (auto simp add: classify_def Let_def)


lemma extractionBranch_mistakes:
  "\<exists>m. mistakes (extractionBranch utt aiResponse t) = [Obj m] \<and> original_part m = Some utt"
  by (simp add: extractionBranch_def Let_def extractedMistake_def)

text \<open>A list without \<^verbatim>\<open>null\<close> is classified without an exception, and the list of the
  turn is without \<^verbatim>\<open>null\<close> again.\<close>

lemma classify_objects:
  assumes "Null \<notin> set (an_mistakes a)"
  shows "\<exists>t. classify utt a = Inr t \<and> Null \<notin> set (mistakes t)"
proof -
  obtain b where b: "structuredGuard (an_mistakes a) = Inr b"
    using guard_objects [OF assms] by blast
  show ?thesis
  proof (cases b)
    case True
    have "Null \<notin> set (mistakes (initialTurn a))"
      using assms by simp
    then obtain t' where "structuredBranch (initialTurn a) = Inr t'" "Null \<notin> set (mistakes t')"
      using structuredBranch_objects by blast
    then show ?thesis
      using b True by (simp add: classify_structured)
  next
    case False
    let ?t = "if detectedCorrection (initialTurn a) \<and>
                 sentenceStatus (initialTurn a) = ''correct'' \<and> mistakes (initialTurn a) = []
              then extractionBranch utt (an_feedback a) (initialTurn a)
              else initialTurn a"
    have c: "classify utt a = Inr (defaultFeedback ?t)"
      using b False by (simp add: classify_def Let_def)
    have "Null \<notin> set (mistakes ?t)"
      using assms extractionBranch_mistakes [of utt "an_feedback a" "initialTurn a"]
      by auto
    then show ?thesis
      using c by simp
  qed
qed

lemma detect_None_iff:
  "detect feedbackLower patterns = None \<longleftrightarrow>
     \<not> list_ex (\<lambda>pattern. includes_str feedbackLower (toLowerCase pattern)) patterns"
  by (induction patterns) simp_all



section \<open>Properties of the chat route\<close>

lemma sessionChat_accepted:
  assumes "\<not> (currentTopicInfo st = None \<and> \<not> isSessionRecording st)"
  shows "sessionChat st (Some userId) utt outcome saving =
     (case classify utt (analyzeAndRespond outcome) of
        Inl e \<Rightarrow>
          (st\<lparr>serverMessageCount := serverMessageCount st + 1\<rparr>,
           Status500 ''Error generating response'')
      | Inr t \<Rightarrow>
          (let st2 = st\<lparr>serverMessageCount := serverMessageCount st + 1,
                        serverIncorrectCount :=
                          serverIncorrectCount st + (if countsAsIncorrect t then 1 else 0)\<rparr>
           in (st2,
               if saving \<and> Null \<in> set (mistakes t)
               then Status500 ''Error generating response''
               else Ok200 \<lparr>cb_userText = utt,
                      cb_aiResponse = an_feedback (analyzeAndRespond outcome),
                      cb_turn = t, cb_hadCorrection = hadCorrection t,
                      cb_countsAsIncorrect = countsAsIncorrect t,
                      cb_currentScore = serverScore st2,
                      cb_messagesCount = serverMessageCount st2,
                      cb_correctCount =
                        int (serverMessageCount st2) - int (serverIncorrectCount st2),
                      cb_incorrectCount = serverIncorrectCount st2\<rparr>)))"
proof (cases "classify utt (analyzeAndRespond outcome)")
  case (Inl e)
  then show ?thesis
    using assms by (auto simp add: sessionChat_def Let_def)
next
  case (Inr t)
  have n: "Null \<in> set (mistakes t) \<Longrightarrow> hadCorrection t"
    by (auto simp add: hadCorrection_def)
  show ?thesis
    using assms Inr n by (auto simp add: sessionChat_def Let_def saveMistakes_eq)
qed

lemma sessionChat_rejected:
  assumes "currentTopicInfo st = None \<and> \<not> isSessionRecording st"
  shows "sessionChat st (Some userId) utt outcome saving =
           (st, Status400 ''No active session. Please start a session first.'')"
  using assms by (simp add: sessionChat_def)

text \<open>The state after a chat request does not depend on whether the mistakes are
  saved.\<close>

lemma sessionChat_state:
  assumes "\<not> (currentTopicInfo st = None \<and> \<not> isSessionRecording st)"
    and "classify utt (analyzeAndRespond outcome) = Inr t"
  shows "fst (sessionChat st (Some userId) utt outcome saving) =
           st\<lparr>serverMessageCount := serverMessageCount st + 1,
              serverIncorrectCount :=
                serverIncorrectCount st + (if countsAsIncorrect t then 1 else 0)\<rparr>"
  by (simp add: sessionChat_accepted [OF assms(1)] assms(2) Let_def)

subsection \<open>A failed call of the AI\<close>

lemma fallback_no_pattern: "detect (toLowerCase fallback) correctionPatterns = None"
  by code_simp

lemma classify_fallback:
  "classify utt (analyzeAndRespond ApiError) =
     Inr \<lparr>detectedCorrection = False, matchedPattern = [],
          shortFeedback = ''Perfect! No grammar mistakes detected.'', feedbackType = ''success'',
          sentenceStatus = ''correct'', mistakes = [], grammarCategory = None,
          errorSubType = ''general''\<rparr>"
proof -
  have "classify utt (analyzeAndRespond ApiError) =
          Inr (defaultFeedback (initialTurn (analyzeAndRespond ApiError)))"
    by (rule classify_neither) (simp_all add: fallback_no_pattern)
  then show ?thesis
    by (simp add: defaultFeedback_def initialTurn_def fallback_no_pattern orStr_def
        orElse_def truthy_def)
qed

lemma fallback_not_incorrect:
  "\<exists>t. classify utt (analyzeAndRespond ApiError) = Inr t \<and> \<not> countsAsIncorrect t"
  by (simp only: classify_fallback)
     (simp add: countsAsIncorrect_def hadCorrection_def isFlencyOnly_def)

lemma ai_failure_turn_aux:
  assumes "\<not> (currentTopicInfo st = None \<and> \<not> isSessionRecording st)"
  shows "fst (sessionChat st (Some userId) utt ApiError saving) =
           st\<lparr>serverMessageCount := serverMessageCount st + 1\<rparr> \<and>
         (\<exists>body. snd (sessionChat st (Some userId) utt ApiError saving) = Ok200 body \<and>
            cb_aiResponse body = ''That is interesting! Can you tell me more?'' \<and>
            sentenceStatus (cb_turn body) = ''correct'' \<and>
            mistakes (cb_turn body) = [] \<and>
            shortFeedback (cb_turn body) = ''Perfect! No grammar mistakes detected.'' \<and>
            \<not> cb_hadCorrection body \<and> \<not> cb_countsAsIncorrect body \<and>
            cb_incorrectCount body = serverIncorrectCount st) \<and>
         \<not> list_ex (\<lambda>pattern. includes_str (toLowerCase fallback) (toLowerCase pattern))
             correctionPatterns"
proof (intro conjI)
  show "fst (sessionChat st (Some userId) utt ApiError saving) =
           st\<lparr>serverMessageCount := serverMessageCount st + 1\<rparr>"
    by (simp only: sessionChat_accepted [OF assms] classify_fallback sum.case Let_def)
       (simp add: countsAsIncorrect_def hadCorrection_def)
  show "\<exists>body. snd (sessionChat st (Some userId) utt ApiError saving) = Ok200 body \<and>
            cb_aiResponse body = ''That is interesting! Can you tell me more?'' \<and>
            sentenceStatus (cb_turn body) = ''correct'' \<and>
            mistakes (cb_turn body) = [] \<and>
            shortFeedback (cb_turn body) = ''Perfect! No grammar mistakes detected.'' \<and>
            \<not> cb_hadCorrection body \<and> \<not> cb_countsAsIncorrect body \<and>
            cb_incorrectCount body = serverIncorrectCount st"
    by (simp only: sessionChat_accepted [OF assms] classify_fallback sum.case Let_def)
       (simp add: hadCorrection_def countsAsIncorrect_def fallback_def)
  show "\<not> list_ex (\<lambda>pattern. includes_str (toLowerCase fallback) (toLowerCase pattern))
             correctionPatterns"
    using fallback_no_pattern by (simp add: detect_None_iff)
qed

text \<open>
  C6. When the call of the AI throws, a chat request on an active session is answered with
  a success body: the feedback is the fixed fallback text, the sentence status is
  \<^verbatim>\<open>correct\<close>, the mistake list is empty, the message counter is one higher and the
  incorrect counter is unchanged. The fallback text contains none of the correction
  phrases.
\<close>

theorem ai_failure_turn:
  assumes "\<not> (currentTopicInfo st = None \<and> \<not> isSessionRecording st)"
  shows "fst (sessionChat st (Some userId) utt ApiError saving) =
           st\<lparr>serverMessageCount := serverMessageCount st + 1\<rparr> \<and>
         (\<exists>body. snd (sessionChat st (Some userId) utt ApiError saving) = Ok200 body \<and>
            cb_aiResponse body = ''That is interesting! Can you tell me more?'' \<and>
            sentenceStatus (cb_turn body) = ''correct'' \<and>
            mistakes (cb_turn body) = [] \<and>
            shortFeedback (cb_turn body) = ''Perfect! No grammar mistakes detected.'' \<and>
            \<not> cb_hadCorrection body \<and> \<not> cb_countsAsIncorrect body \<and>
            cb_incorrectCount body = serverIncorrectCount st) \<and>
         \<not> list_ex (\<lambda>pattern. includes_str (toLowerCase fallback) (toLowerCase pattern))
             correctionPatterns"
  using assms by (rule ai_failure_turn_aux)

theorem ai_failure_turn_witness:
  "(let st = \<lparr>serverMessageCount = 2, serverIncorrectCount = 1,
               currentTopicInfo = Some someTopic, isSessionRecording = True\<rparr>
    in fst (sessionChat st (Some 7) ''I goed home'' ApiError True) =
         st\<lparr>serverMessageCount := 3\<rparr> \<and>
       (\<exists>body. snd (sessionChat st (Some 7) ''I goed home'' ApiError True) = Ok200 body \<and>
          sentenceStatus (cb_turn body) = ''correct'' \<and> cb_incorrectCount body = 1))"
proof -
  let ?st = "\<lparr>serverMessageCount = 2, serverIncorrectCount = 1,
               currentTopicInfo = Some someTopic, isSessionRecording = True\<rparr>"
  have h: "\<not> (currentTopicInfo ?st = None \<and> \<not> isSessionRecording ?st)"
    by simp
  show ?thesis
    using ai_failure_turn [OF h, of 7 "''I goed home''" True] by (auto simp add: Let_def)
qed

subsection \<open>A chat request after the end of a session\<close>

lemma run_start_end:
  assumes "topicId \<noteq> 0"
  shows "run (initial_state r0) [Start (Some userId) topicId topic r1, End (Some userId) r2] =
     \<lparr>serverMessageCount = 0, serverIncorrectCount = 0, currentTopicInfo = Some topic,
      isSessionRecording = r2\<rparr>"
  using assms by (simp add: run_def sessionStart_def sessionEnd_def initial_state_def)

text \<open>
  C7. The end route leaves the topic of the session in place, and the guard of the chat
  route rejects a request only when there is no topic and no recording. So after a session
  was started and ended, whatever the recording flag is, the next chat request is not
  rejected: it is answered with a success body and raises the message counter.
\<close>

theorem chat_after_end_accepted:
  "\<forall>r0 r1 r2 saving.
     (let st = run (initial_state r0)
                 [Start (Some 1) 1 someTopic r1, End (Some 1) r2];
          res = sessionChat st (Some 1) ''Hello'' ApiError saving
      in snd res \<noteq> Status400 ''No active session. Please start a session first.'' \<and>
         (\<exists>body. snd res = Ok200 body) \<and>
         serverMessageCount st = 0 \<and>
         serverMessageCount (fst res) = 1)"
proof (intro allI)
  fix r0 r1 r2 saving
  let ?s = "\<lparr>serverMessageCount = 0, serverIncorrectCount = 0,
             currentTopicInfo = Some someTopic, isSessionRecording = r2\<rparr>"
  have st: "run (initial_state r0) [Start (Some 1) 1 someTopic r1, End (Some 1) r2] = ?s"
    by (rule run_start_end) simp
  have g: "\<not> (currentTopicInfo ?s = None \<and> \<not> isSessionRecording ?s)"
    by simp
  have a: "fst (sessionChat ?s (Some 1) ''Hello'' ApiError saving) =
             ?s\<lparr>serverMessageCount := serverMessageCount ?s + 1\<rparr>"
    and b: "\<exists>body. snd (sessionChat ?s (Some 1) ''Hello'' ApiError saving) = Ok200 body"
    using ai_failure_turn_aux [OF g, of 1 "''Hello''" saving] by auto
  show "let st = run (initial_state r0) [Start (Some 1) 1 someTopic r1, End (Some 1) r2];
            res = sessionChat st (Some 1) ''Hello'' ApiError saving
        in snd res \<noteq> Status400 ''No active session. Please start a session first.'' \<and>
           (\<exists>body. snd res = Ok200 body) \<and>
           serverMessageCount st = 0 \<and> serverMessageCount (fst res) = 1"
    unfolding Let_def st using a b by auto
qed

subsection \<open>Malformed structured mistakes\<close>

lemma classify_kept:
  assumes "an_mistakes a = Obj m # ms"
    and "\<not> (truthy (original_text m) \<and> truthy (corrected_text m))"
  shows "classify utt a = Inr (defaultFeedback (initialTurn a))"
proof (rule classify_neither)
  show "structuredGuard (an_mistakes a) = Inr False"
    using assms by simp
  show "\<not> (detect (toLowerCase (an_feedback a)) correctionPatterns \<noteq> None \<and>
            orStr (an_sentence_status a) ''correct'' = ''correct'' \<and> an_mistakes a = [])"
    using assms(1) by simp
qed










subsection \<open>The counters of a turn\<close>

text \<open>
  C1, as the code has it. A chat request on an active session raises the message counter
  by one. It raises the incorrect counter by one exactly when the turn had a correction,
  that is, its final sentence status is \<^verbatim>\<open>has_errors\<close> or its final mistake list is not
  empty or a correction phrase was detected in the feedback, and neither its grammar
  category nor its error subtype is \<^verbatim>\<open>fluency_naturalness\<close>; otherwise the incorrect
  counter is unchanged. In particular a turn with final status \<^verbatim>\<open>has_errors\<close> outside
  the fluency category is counted, and a turn in the fluency category never is. The
  request is answered with the turn, unless the mistakes are saved and the list of the
  turn holds \<^verbatim>\<open>null\<close>. When the classification throws, no turn is classified: the
  incorrect counter is unchanged and the request is answered with status 500. Where the
  list of the AI holds no \<^verbatim>\<open>null\<close>, the turn is classified and the request is answered
  with it.
\<close>

theorem counters_after_turn:
  assumes "\<not> (currentTopicInfo st = None \<and> \<not> isSessionRecording st)"
  shows "(let res = sessionChat st (Some userId) utt outcome saving;
              st' = fst res
          in serverMessageCount st' = serverMessageCount st + 1 \<and>
             (case classify utt (analyzeAndRespond outcome) of
                Inl e \<Rightarrow>
                  serverIncorrectCount st' = serverIncorrectCount st \<and>
                  snd res = Status500 ''Error generating response''
              | Inr t \<Rightarrow>
                  (let fluency = (grammarCategory t = Some ''fluency_naturalness'' \<or>
                                  errorSubType t = ''fluency_naturalness'')
                   in serverIncorrectCount st' =
                        serverIncorrectCount st +
                          (if (sentenceStatus t = ''has_errors'' \<or> mistakes t \<noteq> [] \<or>
                               detectedCorrection t) \<and> \<not> fluency
                           then 1 else 0) \<and>
                      (sentenceStatus t = ''has_errors'' \<and> \<not> fluency \<longrightarrow>
                         serverIncorrectCount st' = serverIncorrectCount st + 1) \<and>
                      (fluency \<longrightarrow> serverIncorrectCount st' = serverIncorrectCount st) \<and>
                      (if saving \<and> Null \<in> set (mistakes t)
                       then snd res = Status500 ''Error generating response''
                       else \<exists>body. snd res = Ok200 body \<and> cb_turn body = t))) \<and>
             (Null \<notin> set (an_mistakes (analyzeAndRespond outcome)) \<longrightarrow>
                (\<exists>t body. classify utt (analyzeAndRespond outcome) = Inr t \<and>
                   snd res = Ok200 body \<and> cb_turn body = t)))"
proof (cases "classify utt (analyzeAndRespond outcome)")
  case (Inl e)
  have "Null \<in> set (an_mistakes (analyzeAndRespond outcome))"
    using classify_objects [of "analyzeAndRespond outcome" utt] Inl by auto
  then show ?thesis
    using Inl by (simp add: sessionChat_accepted [OF assms] Let_def)
next
  case (Inr t)
  have "Null \<notin> set (an_mistakes (analyzeAndRespond outcome)) \<Longrightarrow> Null \<notin> set (mistakes t)"
    using classify_objects [of "analyzeAndRespond outcome" utt] Inr by auto
  then show ?thesis
    using Inr
    by (auto simp add: sessionChat_accepted [OF assms] Let_def countsAsIncorrect_def
        hadCorrection_def isFlencyOnly_def)
qed

lemma activeState_guard:
  "\<not> (currentTopicInfo (activeState m i) = None \<and> \<not> isSessionRecording (activeState m i))"
  by (simp add: activeState_def)

lemma classify_listsMistake:
  "\<exists>t. classify utt (analyzeAndRespond listsMistake) = Inr t \<and>
       sentenceStatus t = ''correct'' \<and>
       mistakes t \<noteq> [] \<and> Null \<notin> set (mistakes t) \<and>
       grammarCategory t = None \<and>
       errorSubType t = ''general''"
proof -
  let ?a = "analyzeAndRespond listsMistake"
  have g: "structuredGuard (an_mistakes ?a) = Inr True"
    by (simp add: listsMistake_def bothTexts_def no_fields_def truthy_def)
  have "Null \<notin> set (mistakes (initialTurn ?a))"
    by (simp add: listsMistake_def)
  then obtain t' where t': "structuredBranch (initialTurn ?a) = Inr t'"
    "Null \<notin> set (mistakes t')"
    "length (mistakes t') = length (mistakes (initialTurn ?a))"
    "sentenceStatus t' = sentenceStatus (initialTurn ?a)"
    "grammarCategory t' = grammarCategory (initialTurn ?a)"
    "errorSubType t' = errorSubType (initialTurn ?a)"
    using structuredBranch_objects by blast
  have n: "mistakes t' \<noteq> []"
    using t'(3) by (auto simp add: listsMistake_def)
  have c: "classify utt ?a = Inr (defaultFeedback t')"
    by (simp add: classify_structured [OF g] t'(1))
  show ?thesis
    unfolding c using t' n by (simp add: listsMistake_def orStr_def orElse_def truthy_def)
qed

lemma should_be_turn:
  "\<exists>t. classify ''I goed'' (analyzeAndRespond (PlainText ''It should be went'')) = Inr t \<and>
       sentenceStatus t = ''has_errors'' \<and>
       grammarCategory t = Some ''grammar_sentence_structure'' \<and>
       errorSubType t = ''grammar_sentence_structure''"
proof -
  have "(case classify ''I goed'' (analyzeAndRespond (PlainText ''It should be went'')) of
           Inl e \<Rightarrow> False
         | Inr t \<Rightarrow>
             sentenceStatus t = ''has_errors'' \<and>
             grammarCategory t = Some ''grammar_sentence_structure'' \<and>
             errorSubType t = ''grammar_sentence_structure'')"
    by code_simp
  then show ?thesis
    by (simp split: sum.splits)
qed

lemma more_natural_turn:
  \<open>\<exists>t. classify ''I am agree''
         (analyzeAndRespond (PlainText ''You could say "I agree", it is more natural'')) =
         Inr t \<and>
       sentenceStatus t = ''has_errors'' \<and>
       grammarCategory t = Some ''fluency_naturalness'' \<and>
       errorSubType t = ''fluency_naturalness''\<close>
proof -
  have \<open>(case classify ''I am agree''
              (analyzeAndRespond (PlainText ''You could say "I agree", it is more natural'')) of
           Inl e \<Rightarrow> False
         | Inr t \<Rightarrow>
             sentenceStatus t = ''has_errors'' \<and>
             grammarCategory t = Some ''fluency_naturalness'' \<and>
             errorSubType t = ''fluency_naturalness'')\<close>
    by code_simp
  then show ?thesis
    by (simp split: sum.splits)
qed

text \<open>
  The theorem at a turn that is counted, at a turn in the fluency category, which is not,
  at a request for which the AI lists \<^verbatim>\<open>null\<close>, so that the classification throws, and
  at a request for which the AI lists an incomplete mistake and then \<^verbatim>\<open>null\<close>, so that
  the turn is counted and the loop that saves the mistakes throws.
\<close>

theorem counters_after_turn_witness:
  \<open>serverMessageCount (fst (sessionChat (activeState 4 1) (Some 7) ''I goed''
      (PlainText ''It should be went'') True)) = 5 \<and>
   serverIncorrectCount (fst (sessionChat (activeState 4 1) (Some 7) ''I goed''
      (PlainText ''It should be went'') True)) = 2 \<and>
   serverMessageCount (fst (sessionChat (activeState 4 1) (Some 7) ''I am agree''
      (PlainText ''You could say "I agree", it is more natural'') True)) = 5 \<and>
   serverIncorrectCount (fst (sessionChat (activeState 4 1) (Some 7) ''I am agree''
      (PlainText ''You could say "I agree", it is more natural'') True)) = 1 \<and>
   (\<exists>body. snd (sessionChat (activeState 4 1) (Some 7) ''I am agree''
      (PlainText ''You could say "I agree", it is more natural'') True) = Ok200 body) \<and>
   serverMessageCount (fst (sessionChat (activeState 4 1) (Some 7) ''I goed''
      listsNull True)) = 5 \<and>
   serverIncorrectCount (fst (sessionChat (activeState 4 1) (Some 7) ''I goed''
      listsNull True)) = 1 \<and>
   snd (sessionChat (activeState 4 1) (Some 7) ''I goed'' listsNull True) =
     Status500 ''Error generating response'' \<and>
   serverMessageCount (fst (sessionChat (activeState 4 1) (Some 7) ''I goed''
      listsHalfAndNull True)) = 5 \<and>
   serverIncorrectCount (fst (sessionChat (activeState 4 1) (Some 7) ''I goed''
      listsHalfAndNull True)) = 2 \<and>
   snd (sessionChat (activeState 4 1) (Some 7) ''I goed'' listsHalfAndNull True) =
     Status500 ''Error generating response''\<close>
proof -
  have s: "serverMessageCount (activeState 4 1) = 4" "serverIncorrectCount (activeState 4 1) = 1"
    by (simp_all add: activeState_def)
  obtain t where t: "classify ''I goed'' (analyzeAndRespond (PlainText ''It should be went'')) =
      Inr t" "sentenceStatus t = ''has_errors''"
    "grammarCategory t = Some ''grammar_sentence_structure''"
    "errorSubType t = ''grammar_sentence_structure''"
    using should_be_turn by blast
  have a: "serverMessageCount (fst (sessionChat (activeState 4 1) (Some 7) ''I goed''
      (PlainText ''It should be went'') True)) = 4 + 1 \<and>
     serverIncorrectCount (fst (sessionChat (activeState 4 1) (Some 7) ''I goed''
      (PlainText ''It should be went'') True)) = 1 + 1"
    using counters_after_turn [OF activeState_guard, of 4 1 7 "''I goed''"
        "PlainText ''It should be went''" True] t
    unfolding Let_def s by simp
  obtain u where u: \<open>classify ''I am agree''
         (analyzeAndRespond (PlainText ''You could say "I agree", it is more natural'')) =
         Inr u\<close> "sentenceStatus u = ''has_errors''"
    "grammarCategory u = Some ''fluency_naturalness''"
    "errorSubType u = ''fluency_naturalness''"
    using more_natural_turn by blast
  have n: \<open>Null \<notin> set (an_mistakes
      (analyzeAndRespond (PlainText ''You could say "I agree", it is more natural'')))\<close>
    by simp
  have b: \<open>serverMessageCount (fst (sessionChat (activeState 4 1) (Some 7) ''I am agree''
      (PlainText ''You could say "I agree", it is more natural'') True)) = 4 + 1 \<and>
     serverIncorrectCount (fst (sessionChat (activeState 4 1) (Some 7) ''I am agree''
      (PlainText ''You could say "I agree", it is more natural'') True)) = 1 \<and>
     (\<exists>body. snd (sessionChat (activeState 4 1) (Some 7) ''I am agree''
      (PlainText ''You could say "I agree", it is more natural'') True) = Ok200 body)\<close>
    using counters_after_turn [OF activeState_guard, of 4 1 7 "''I am agree''"
        \<open>PlainText ''You could say "I agree", it is more natural''\<close> True] u n
    unfolding Let_def s by auto
  have v: "classify ''I goed'' (analyzeAndRespond listsNull) = Inl TypeError"
    by (simp add: listsNull_def classify_def Let_def)
  have c: "serverMessageCount (fst (sessionChat (activeState 4 1) (Some 7) ''I goed''
      listsNull True)) = 4 + 1 \<and>
     serverIncorrectCount (fst (sessionChat (activeState 4 1) (Some 7) ''I goed''
      listsNull True)) = 1 \<and>
     snd (sessionChat (activeState 4 1) (Some 7) ''I goed'' listsNull True) =
       Status500 ''Error generating response''"
    using counters_after_turn [OF activeState_guard, of 4 1 7 "''I goed''" listsNull True] v
    unfolding Let_def s by simp
  have w: "classify ''I goed'' (analyzeAndRespond listsHalfAndNull) =
      Inr (defaultFeedback (initialTurn (analyzeAndRespond listsHalfAndNull)))"
    by (rule classify_kept [of _ onlyOriginal "[Null]"])
       (simp_all add: listsHalfAndNull_def onlyOriginal_def no_fields_def truthy_def)
  have d: "serverMessageCount (fst (sessionChat (activeState 4 1) (Some 7) ''I goed''
      listsHalfAndNull True)) = 4 + 1 \<and>
     serverIncorrectCount (fst (sessionChat (activeState 4 1) (Some 7) ''I goed''
      listsHalfAndNull True)) = 1 + 1 \<and>
     snd (sessionChat (activeState 4 1) (Some 7) ''I goed'' listsHalfAndNull True) =
       Status500 ''Error generating response''"
    using counters_after_turn [OF activeState_guard, of 4 1 7 "''I goed''" listsHalfAndNull
        True] w
    unfolding Let_def s by (simp add: listsHalfAndNull_def orElse_def truthy_def)
  show ?thesis
    using a b c d by simp
qed

text \<open>
  The claim as the specification states it fails where the final sentence status is
  \<^verbatim>\<open>correct\<close> and the turn is counted all the same: the structured branch keeps the
  status of the AI (here the default, as the AI gave none), and a non-empty mistake list
  alone makes the turn count.
\<close>

theorem counters_after_turn_counterexample:
  "(let res = sessionChat (activeState 4 1) (Some 7) ''I goed'' listsMistake False
    in (\<exists>body. snd res = Ok200 body \<and> sentenceStatus (cb_turn body) = ''correct'') \<and>
       serverIncorrectCount (fst res) = serverIncorrectCount (activeState 4 1) + 1)"
proof -
  obtain t where t: "classify ''I goed'' (analyzeAndRespond listsMistake) = Inr t"
    "sentenceStatus t = ''correct''" "mistakes t \<noteq> []" "Null \<notin> set (mistakes t)"
    "grammarCategory t = None" "errorSubType t = ''general''"
    using classify_listsMistake by blast
  have c: "countsAsIncorrect t"
    using t by (simp add: countsAsIncorrect_def hadCorrection_def isFlencyOnly_def)
  show ?thesis
    unfolding sessionChat_accepted [OF activeState_guard] Let_def t(1)
    using c t by simp
qed

subsection \<open>Two users\<close>

text \<open>
  C9, as the code has it. The two counters are variables of the module, one pair for the
  whole server, and no route keeps counters by user. So what the end route reports to a
  user does not depend on who asks, and a turn processed for one user raises the counters
  that the end route reports to every other user.
\<close>

theorem counters_are_shared:
  assumes "\<not> (currentTopicInfo st = None \<and> \<not> isSessionRecording st)"
  shows "(let st' = fst (sessionChat st (Some u) utt outcome saving)
          in snd (sessionEnd st (Some v) r) = snd (sessionEnd st (Some u) r) \<and>
             (\<exists>before after.
                snd (sessionEnd st (Some v) r) = Ok200 before \<and>
                snd (sessionEnd st' (Some v) r) = Ok200 after \<and>
                eb_totalSentences after = eb_totalSentences before + 1 \<and>
                eb_incorrectSentences after =
                  eb_incorrectSentences before +
                    (case classify utt (analyzeAndRespond outcome) of
                       Inl e \<Rightarrow> 0
                     | Inr t \<Rightarrow> if countsAsIncorrect t then 1 else 0)))"
  by (cases "classify utt (analyzeAndRespond outcome)")
     (simp_all add: sessionChat_accepted [OF assms] Let_def sessionEnd_def)

theorem counters_are_shared_witness:
  "(\<exists>before after.
      snd (sessionEnd (activeState 0 0) (Some 2) False) = Ok200 before \<and>
      snd (sessionEnd (fst (sessionChat (activeState 0 0) (Some 1) ''Hello'' ApiError False))
             (Some 2) False) = Ok200 after \<and>
      eb_totalSentences before = 0 \<and> eb_totalSentences after = 1)"
  using counters_are_shared [OF activeState_guard, of 0 0 1 "''Hello''" ApiError False 2 False]
  by (auto simp add: Let_def sessionEnd_def activeState_def)

text \<open>
  Two users each start a session; user 1 then sends one turn, which the AI corrects. What
  the end route reports to user 2 changes: one sentence, one of them incorrect, score 0
  instead of no sentence and score 100.
\<close>

lemma should_be_counts:
  "\<exists>t. classify ''I goed'' (analyzeAndRespond (PlainText ''It should be went'')) = Inr t \<and>
       countsAsIncorrect t"
  using should_be_turn
  by (auto simp add: countsAsIncorrect_def hadCorrection_def isFlencyOnly_def)

theorem counters_are_shared_counterexample:
  "(let st = run (initial_state False)
               [Start (Some 1) 1 someTopic True, Start (Some 2) 1 someTopic True];
        st' = fst (sessionChat st (Some 1) ''I goed'' (PlainText ''It should be went'') False)
    in snd (sessionEnd st (Some 2) False) =
         Ok200 \<lparr>eb_correctSentences = 0, eb_incorrectSentences = 0, eb_totalSentences = 0,
                eb_accuracyScore = 100\<rparr> \<and>
       snd (sessionEnd st' (Some 2) False) =
         Ok200 \<lparr>eb_correctSentences = 0, eb_incorrectSentences = 1, eb_totalSentences = 1,
                eb_accuracyScore = 0\<rparr>)"
proof -
  have st: "run (initial_state False)
              [Start (Some 1) 1 someTopic True, Start (Some 2) 1 someTopic True] =
            activeState 0 0"
    by (simp add: run_def sessionStart_def initial_state_def activeState_def)
  have sc: "serverScore (activeState 0 0) = 100"
    by (simp add: serverScore_def activeState_def)
  have sc': "serverScore (activeState 1 1) = 0"
    by code_simp
  obtain t where t: "classify ''I goed'' (analyzeAndRespond (PlainText ''It should be went'')) =
      Inr t" "countsAsIncorrect t"
    using should_be_counts by blast
  have ch: "fst (sessionChat (activeState 0 0) (Some 1) ''I goed''
               (PlainText ''It should be went'') False) = activeState 1 1"
    unfolding sessionChat_state [OF activeState_guard t(1)]
    using t(2) by (simp add: activeState_def)
  have e0: "snd (sessionEnd (activeState 0 0) (Some 2) False) =
         Ok200 \<lparr>eb_correctSentences = 0, eb_incorrectSentences = 0, eb_totalSentences = 0,
                eb_accuracyScore = 100\<rparr>"
    unfolding sessionEnd_def sc by (simp add: activeState_def)
  have e1: "snd (sessionEnd (activeState 1 1) (Some 2) False) =
         Ok200 \<lparr>eb_correctSentences = 0, eb_incorrectSentences = 1, eb_totalSentences = 1,
                eb_accuracyScore = 0\<rparr>"
    unfolding sessionEnd_def sc' by (simp add: activeState_def)
  show ?thesis
    unfolding Let_def st ch using e0 e1 by (rule conjI)
qed

subsection \<open>The order of the extraction cascade\<close>

lemma foldl_keep:
  "foldl keep c vs = (case firstNonEmpty (c # vs) of Some s \<Rightarrow> s | None \<Rightarrow> [])"
  by (induction vs arbitrary: c) (simp_all add: keep_def)

lemma firstNonEmpty_Some: "firstNonEmpty vs = Some s \<Longrightarrow> s \<noteq> []"
  by (induction vs) (simp_all split: if_splits)

lemma pattern_guards:
  "pattern0b r ct = keep ct (pattern0b r [])"
  "pattern0c r ct = keep ct (pattern0c r [])"
  "pattern1 r ct = keep ct (pattern1 r [])"
  "pattern2 r ct = keep ct (pattern2 r [])"
  "pattern3 r ct = keep ct (pattern3 r [])"
  "pattern4 r ct = keep ct (pattern4 r [])"
  "pattern6 r ct = keep ct (pattern6 r [])"
  "pattern7 r ct = keep ct (pattern7 r [])"
  "pattern8 r ct = keep ct (pattern8 r [])"
  by (auto simp add: keep_def pattern0b_def pattern0c_def pattern1_def pattern2_def
      pattern3_def pattern4_def pattern6_def pattern7_def pattern8_def)

lemma extractCorrected_cascade:
  "extractCorrected r = (case firstNonEmpty (cascade r) of Some s \<Rightarrow> s | None \<Rightarrow> [])"
proof -
  let ?c0 = "pattern0a r []"
  let ?c1 = "keep ?c0 (pattern0b r [])"
  let ?c2 = "keep ?c1 (pattern0c r [])"
  let ?c3 = "keep ?c2 (pattern1 r [])"
  let ?c4 = "keep ?c3 (pattern2 r [])"
  let ?c5 = "keep ?c4 (pattern3 r [])"
  let ?c6 = "keep ?c5 (pattern4 r [])"
  let ?c7 = "keep ?c6 (pattern6 r [])"
  let ?c8 = "keep ?c7 (pattern7 r [])"
  let ?c9 = "keep ?c8 (pattern8 r [])"
  have 1: "pattern0b r ?c0 = ?c1" by (rule pattern_guards)
  have 2: "pattern0c r ?c1 = ?c2" by (rule pattern_guards)
  have 3: "pattern1 r ?c2 = ?c3" by (rule pattern_guards)
  have 4: "pattern2 r ?c3 = ?c4" by (rule pattern_guards)
  have 5: "pattern3 r ?c4 = ?c5" by (rule pattern_guards)
  have 6: "pattern4 r ?c5 = ?c6" by (rule pattern_guards)
  have 7: "pattern6 r ?c6 = ?c7" by (rule pattern_guards)
  have 8: "pattern7 r ?c7 = ?c8" by (rule pattern_guards)
  have 9: "pattern8 r ?c8 = ?c9" by (rule pattern_guards)
  have "extractCorrected r = ?c9"
    unfolding extractCorrected_def by (simp only: 1 2 3 4 5 6 7 8 9)
  also have "?c9 = foldl keep ?c0 (tl (cascade r))"
    by (simp add: cascade_def)
  also have "\<dots> = (case firstNonEmpty (cascade r) of Some s \<Rightarrow> s | None \<Rightarrow> [])"
    unfolding foldl_keep by (simp add: cascade_def)
  finally show ?thesis .
qed

text \<open>
  C4, as the code has it. Where a correction phrase is detected in the feedback while the
  AI's status is \<^verbatim>\<open>correct\<close> and its mistake list is empty, the turn gets one mistake
  whose corrected text is the first non-empty output among the ten patterns of the source
  in their order, the \<^verbatim>\<open>I'm about to\<close> pattern standing between the \<^verbatim>\<open>It was/is\<close>
  pattern and the bulleted quote; when every pattern yields the empty text, it is the fixed
  placeholder.
\<close>

theorem extraction_cascade_order:
  assumes "list_ex (\<lambda>pattern. includes_str (toLowerCase (an_feedback a)) (toLowerCase pattern))
             correctionPatterns"
    and "orStr (an_sentence_status a) ''correct'' = ''correct''"
    and "an_mistakes a = []"
  shows "\<exists>t m. classify utt a = Inr t \<and>
           mistakes t = [Obj m] \<and>
           corrected_text m =
             Some (case firstNonEmpty (cascade (an_feedback a)) of
                     Some s \<Rightarrow> s | None \<Rightarrow> placeholder) \<and>
           corrected_version m = corrected_text m \<and>
           original_text m = Some utt"
proof -
  have d: "detect (toLowerCase (an_feedback a)) correctionPatterns \<noteq> None"
    using assms(1) by (simp add: detect_None_iff)
  have c: "classify utt a =
             Inr (defaultFeedback (extractionBranch utt (an_feedback a) (initialTurn a)))"
    using d assms(2,3) by (intro classify_extraction) simp_all
  show ?thesis
  proof (cases "firstNonEmpty (cascade (an_feedback a))")
    case None
    then have "extractCorrected (an_feedback a) = []"
      by (simp add: extractCorrected_cascade)
    then show ?thesis
      using None
      by (simp add: c extractionBranch_def Let_def extractedMistake_def placeholder_def)
  next
    case (Some s)
    then have "extractCorrected (an_feedback a) = s" "s \<noteq> []"
      by (simp_all add: extractCorrected_cascade firstNonEmpty_Some)
    then show ?thesis
      using Some
      by (simp add: c extractionBranch_def Let_def extractedMistake_def)
  qed
qed

theorem extraction_cascade_order_witness:
  \<open>\<exists>t m. classify ''I have it''
           (analyzeAndRespond (PlainText ''It would be: "I **had** it". Use **had**'')) =
           Inr t \<and>
         mistakes t = [Obj m] \<and> corrected_text m = Some ''I had it''\<close>
proof -
  let ?a = \<open>analyzeAndRespond (PlainText ''It would be: "I **had** it". Use **had**'')\<close>
  have h: "list_ex (\<lambda>pattern. includes_str (toLowerCase (an_feedback ?a)) (toLowerCase pattern))
             correctionPatterns"
    "orStr (an_sentence_status ?a) ''correct'' = ''correct''"
    "an_mistakes ?a = []"
    by code_simp+
  have v: "firstNonEmpty (cascade (an_feedback ?a)) = Some ''I had it''"
    by code_simp
  have "\<exists>t m. classify ''I have it'' ?a = Inr t \<and>
           mistakes t = [Obj m] \<and>
           corrected_text m =
             Some (case firstNonEmpty (cascade (an_feedback ?a)) of
                     Some s \<Rightarrow> s | None \<Rightarrow> placeholder) \<and>
           corrected_version m = corrected_text m \<and>
           original_text m = Some ''I have it''"
    using h by (rule extraction_cascade_order)
  then show ?thesis
    unfolding v by auto
qed

text \<open>
  The claim as the specification states it leaves the \<^verbatim>\<open>I'm about to\<close> pattern out. On
  the feedback below the nine patterns it lists yield \<^verbatim>\<open>fine\<close> first (from
  \<^verbatim>\<open>should be\<close>), while the corrected text of the turn is the sentence that the
  \<^verbatim>\<open>I'm about to\<close> pattern builds.
\<close>

theorem extraction_cascade_counterexample:
  "(case classify ''I eat apple''
           (analyzeAndRespond (PlainText ''I'm about to eat apple. It should be fine'')) of
      Inl e \<Rightarrow> False
    | Inr t \<Rightarrow>
        (case mistakes t of
           [Obj m] \<Rightarrow> corrected_text m = Some ''I'm about to eat an apple''
         | _ \<Rightarrow> False)) \<and>
   firstNonEmpty (claimedCascade ''I'm about to eat apple. It should be fine'') =
     Some ''fine''"
  by code_simp

subsection \<open>The order of the category tests\<close>

lemma categorize_rules:
  "firstMatch (categoryRules mp fb orig corr) =
     Some (c_errorSubType (categorize mp fb orig corr),
           c_shortFeedback (categorize mp fb orig corr)) \<and>
   c_grammarCategory (categorize mp fb orig corr) = c_errorSubType (categorize mp fb orig corr)"
  by (simp add: categoryRules_def categorize_def Let_def naturalnessLanguage_def)

text \<open>
  C5, as the code has it. For a turn that the extraction branch classifies, the category
  is the one of the first test that holds, in this order: missing-verb or
  sentence-structure language gives sentence structure; tense language gives tense;
  the word \<^verbatim>\<open>article\<close> gives prepositions and articles; the word \<^verbatim>\<open>preposition\<close> gives
  prepositions and articles; a verb pair of the table found across the original and the
  corrected text gives tense; a word pair of the table gives word choice; naturalness
  language gives fluency; \<^verbatim>\<open>more common\<close> gives tense; otherwise sentence structure. The
  grammar category of the turn is its error subtype.
\<close>

theorem category_order:
  assumes "detect (toLowerCase (an_feedback a)) correctionPatterns = Some pattern"
    and "orStr (an_sentence_status a) ''correct'' = ''correct''"
    and "an_mistakes a = []"
  shows "\<exists>t. classify utt a = Inr t \<and>
           firstMatch (categoryRules pattern (toLowerCase (an_feedback a)) utt
                         (extractCorrected (an_feedback a))) =
             Some (errorSubType t, shortFeedback t) \<and>
           grammarCategory t = Some (errorSubType t) \<and>
           sentenceStatus t = ''has_errors''"
proof -
  let ?t = "defaultFeedback (extractionBranch utt (an_feedback a) (initialTurn a))"
  have c: "classify utt a = Inr ?t"
    using assms by (intro classify_extraction) simp_all
  have m: "matchedPattern (initialTurn a) = pattern"
    using assms(1) by (simp add: initialTurn_def Let_def)
  let ?c = "categorize pattern (toLowerCase (an_feedback a)) utt
              (extractCorrected (an_feedback a))"
  have ne: "c_shortFeedback ?c \<noteq> []"
    by (simp add: categorize_def Let_def)
  have e: "extractionBranch utt (an_feedback a) (initialTurn a) =
      (initialTurn a)\<lparr>sentenceStatus := ''has_errors'',
           feedbackType := c_feedbackType ?c,
           errorSubType := c_errorSubType ?c,
           shortFeedback := c_shortFeedback ?c,
           grammarCategory := Some (c_grammarCategory ?c),
           mistakes :=
             [Obj (extractedMistake (c_errorSubType ?c) (c_grammarCategory ?c) utt
                     (extractCorrected (an_feedback a)))]\<rparr>"
    by (simp add: extractionBranch_def Let_def m)
  have s: "shortFeedback ?t = c_shortFeedback ?c"
    unfolding e using ne by (simp add: defaultFeedback_def)
  have t: "errorSubType ?t = c_errorSubType ?c"
    "grammarCategory ?t = Some (c_grammarCategory ?c)"
    "sentenceStatus ?t = ''has_errors''"
    unfolding e by simp_all
  have "firstMatch (categoryRules pattern (toLowerCase (an_feedback a)) utt
                         (extractCorrected (an_feedback a))) =
             Some (errorSubType ?t, shortFeedback ?t) \<and>
           grammarCategory ?t = Some (errorSubType ?t) \<and>
           sentenceStatus ?t = ''has_errors''"
    unfolding s t using categorize_rules [of pattern "toLowerCase (an_feedback a)" utt
        "extractCorrected (an_feedback a)"]
    by simp
  then show ?thesis
    using c by blast
qed

theorem category_order_witness:
  \<open>\<exists>t. classify ''yesterday i go to school''
         (analyzeAndRespond
            (PlainText ''A small correction about the article: "I went to school"'')) =
         Inr t \<and>
       errorSubType t = ''prepositions_articles'' \<and>
       shortFeedback t = ''Grammar error: Article usage''\<close>
proof -
  let ?fb = \<open>''A small correction about the article: "I went to school"''\<close>
  let ?a = "analyzeAndRespond (PlainText ?fb)"
  have h: "detect (toLowerCase (an_feedback ?a)) correctionPatterns = Some ''small correction''"
    "orStr (an_sentence_status ?a) ''correct'' = ''correct''"
    "an_mistakes ?a = []"
    by code_simp+
  have v: "firstMatch (categoryRules ''small correction'' (toLowerCase (an_feedback ?a))
             ''yesterday i go to school'' (extractCorrected (an_feedback ?a))) =
           Some (''prepositions_articles'', ''Grammar error: Article usage'')"
    by code_simp
  have "\<exists>t. classify ''yesterday i go to school'' ?a = Inr t \<and>
           firstMatch (categoryRules ''small correction'' (toLowerCase (an_feedback ?a))
               ''yesterday i go to school'' (extractCorrected (an_feedback ?a))) =
             Some (errorSubType t, shortFeedback t) \<and>
           grammarCategory t = Some (errorSubType t) \<and>
           sentenceStatus t = ''has_errors''"
    using h by (rule category_order)
  then show ?thesis
    unfolding v by auto
qed

text \<open>
  The claim as the specification states it tests the verb pairs before the word
  \<^verbatim>\<open>article\<close>. On the turn below the original has \<^verbatim>\<open>go\<close> and the corrected text has
  \<^verbatim>\<open>went\<close>, so the claimed order gives the tense category, while the turn is classified
  under prepositions and articles.
\<close>

theorem category_order_counterexample:
  \<open>(case classify ''yesterday i go to school''
           (analyzeAndRespond
              (PlainText ''A small correction about the article: "I went to school"'')) of
      Inl e \<Rightarrow> False
    | Inr t \<Rightarrow> errorSubType t = ''prepositions_articles'') \<and>
   map_option subTypeOf
     (firstMatch (claimedRules ''small correction''
        (toLowerCase ''A small correction about the article: "I went to school"'')
        ''yesterday i go to school''
        (extractCorrected ''A small correction about the article: "I went to school"''))) =
     Some ''grammar_tense_verb'' \<and>
   detect (toLowerCase ''A small correction about the article: "I went to school"'')
     correctionPatterns = Some ''small correction''\<close>
  by code_simp

section \<open>Properties of the number model\<close>

lemma expo_up_bounds:
  "1 \<le> x \<Longrightarrow> 2 powi expo_up x \<le> x \<and> x < 2 powi (expo_up x + 1)"
proof (induction x rule: expo_up.induct)
  case (1 x)
  show ?case
  proof (cases "2 \<le> x")
    case True
    then have ih: "2 powi expo_up (x / 2) \<le> x / 2 \<and> x / 2 < 2 powi (expo_up (x / 2) + 1)"
      using 1 by simp
    have e: "expo_up x = expo_up (x / 2) + 1"
      using True by (simp add: expo_up.simps [of x])
    have p: "(2::rat) powi (expo_up (x / 2) + 1 + 1) = 2 powi (expo_up (x / 2) + 1) * 2"
      by (rule power_int_add_1) simp
    show ?thesis
      unfolding e p using ih by (simp add: power_int_add_1)
  next
    case False
    then have "expo_up x = 0"
      by (simp add: expo_up.simps [of x])
    then show ?thesis
      using False 1(2) by simp
  qed
qed

lemma expo_down_bounds:
  "0 < x \<Longrightarrow> x < 1 \<Longrightarrow> 2 powi expo_down x \<le> x \<and> x < 2 powi (expo_down x + 1)"
proof (induction x rule: expo_down.induct)
  case (1 x)
  have e: "expo_down x = expo_down (x * 2) - 1"
    using 1(2,3) by (simp add: expo_down.simps [of x])
  show ?case
  proof (cases "x * 2 < 1")
    case True
    then have ih: "2 powi expo_down (x * 2) \<le> x * 2 \<and> x * 2 < 2 powi (expo_down (x * 2) + 1)"
      using 1 by simp
    have p: "(2::rat) powi (expo_down (x * 2) - 1) * 2 = 2 powi expo_down (x * 2)"
      by (rule power_int_minus_mult) simp
    have q: "(2::rat) powi (expo_down (x * 2) + 1) = 2 powi expo_down (x * 2) * 2"
      by (rule power_int_add_1) simp
    show ?thesis
      unfolding e using ih p q by simp
  next
    case False
    then have z: "expo_down (x * 2) = 0"
      by (simp add: expo_down.simps [of "x * 2"])
    have "(2::rat) powi (- 1) = 1 / 2"
      by (simp add: power_int_minus_divide)
    then show ?thesis
      unfolding e z using False 1(3) by simp
  qed
qed

lemma expo_bounds:
  assumes "0 < x"
  shows "2 powi expo x \<le> x" and "x < 2 powi (expo x + 1)"
  using assms expo_up_bounds [of x] expo_down_bounds [of x]
  by (auto simp add: expo_def)

lemma expo_le:
  assumes "0 < x" and "x < 2 powi (k + 1)"
  shows "expo x \<le> k"
proof (rule ccontr)
  assume "\<not> expo x \<le> k"
  then have "k + 1 \<le> expo x" by simp
  then have "(2::rat) powi (k + 1) \<le> 2 powi expo x"
    by (intro power_int_increasing) simp_all
  then show False
    using expo_bounds(1) [OF assms(1)] assms(2) by simp
qed

lemma ulp_pos: "0 < ulp x"
  by (simp add: ulp_def zero_less_power_int)

lemma rnd_even_of_int [simp]: "rnd_even (of_int n) = n"
  by (simp add: rnd_even_def)

lemma rnd_even_le:
  assumes "x \<le> of_int n"
  shows "rnd_even x \<le> n"
proof (cases "x = of_int \<lfloor>x\<rfloor>")
  case True
  then have "rnd_even x = \<lfloor>x\<rfloor>"
    by (simp add: rnd_even_def Let_def)
  then show ?thesis
    using assms by (simp add: floor_le_iff)
next
  case False
  then have "of_int \<lfloor>x\<rfloor> < x"
    using of_int_floor_le [of x] by linarith
  then have "of_int \<lfloor>x\<rfloor> < (of_int n :: rat)"
    using assms by linarith
  then have "\<lfloor>x\<rfloor> + 1 \<le> n"
    by simp
  moreover have "rnd_even x \<le> \<lfloor>x\<rfloor> + 1"
    by (simp add: rnd_even_def Let_def)
  ultimately show ?thesis by linarith
qed

lemma rnd_even_ge:
  assumes "of_int n \<le> x"
  shows "n \<le> rnd_even x"
proof -
  have "n \<le> \<lfloor>x\<rfloor>"
    using assms by (simp add: le_floor_iff)
  moreover have "\<lfloor>x\<rfloor> \<le> rnd_even x"
    by (simp add: rnd_even_def Let_def)
  ultimately show ?thesis by linarith
qed

text \<open>An integer is a multiple of the unit in the last place of every number whose
  exponent is at most 52.\<close>

lemma int_on_grid:
  assumes "expo \<bar>x\<bar> \<le> 52"
  shows "\<exists>k::int. (of_int n :: rat) = of_int k * ulp x"
proof -
  define j where "j = nat (52 - expo \<bar>x\<bar>)"
  have "ulp x * 2 ^ j = 2 powi (expo \<bar>x\<bar> - 52) * 2 powi (int j)"
    by (simp add: ulp_def)
  also have "\<dots> = 2 powi (expo \<bar>x\<bar> - 52 + int j)"
    by (rule power_int_add [symmetric]) simp
  also have "\<dots> = 1"
    using assms by (simp add: j_def)
  finally have u: "ulp x * 2 ^ j = 1" .
  have "(of_int n :: rat) = of_int n * (ulp x * 2 ^ j)"
    by (simp add: u)
  also have "\<dots> = of_int (n * 2 ^ j) * ulp x"
    by simp
  finally show ?thesis by blast
qed

lemma fl_le_int:
  assumes "0 < x" and "x \<le> of_int n" and "expo x \<le> 52"
  shows "fl x \<le> of_int n"
proof -
  obtain k :: int where k: "(of_int n :: rat) = of_int k * ulp x"
    using int_on_grid [of x n] assms by auto
  have "x / ulp x \<le> of_int k"
    using assms(2) k ulp_pos [of x] by (simp add: pos_divide_le_eq)
  then have "rnd_even (x / ulp x) \<le> k"
    by (rule rnd_even_le)
  then have "of_int (rnd_even (x / ulp x)) * ulp x \<le> of_int k * ulp x"
    using ulp_pos [of x] by (simp add: mult_right_mono)
  then show ?thesis
    using assms(1) k by (simp add: fl_def)
qed

lemma fl_ge_int:
  assumes "0 < x" and "of_int n \<le> x" and "expo x \<le> 52"
  shows "of_int n \<le> fl x"
proof -
  obtain k :: int where k: "(of_int n :: rat) = of_int k * ulp x"
    using int_on_grid [of x n] assms by auto
  have "of_int k \<le> x / ulp x"
    using assms(2) k ulp_pos [of x] by (simp add: pos_le_divide_eq)
  then have "k \<le> rnd_even (x / ulp x)"
    by (rule rnd_even_ge)
  then have "of_int k * ulp x \<le> of_int (rnd_even (x / ulp x)) * ulp x"
    using ulp_pos [of x] by (simp add: mult_right_mono)
  then show ?thesis
    using assms(1) k by (simp add: fl_def)
qed

text \<open>Rounding keeps a number between two integers, up to \<open>2\<^sup>5\<^sup>3\<close>.\<close>

lemma fl_between:
  assumes "of_int m \<le> x" and "x \<le> of_int n" and "0 \<le> m" and "n < 2 ^ 53"
  shows "of_int m \<le> fl x \<and> fl x \<le> of_int n"
proof (cases "x = 0")
  case True
  then show ?thesis using assms by (simp add: fl_def)
next
  case False
  have "(0::rat) \<le> of_int m"
    using assms(3) by simp
  then have pos: "0 < x"
    using assms(1) False by linarith
  have "x < 2 powi (52 + 1)"
  proof -
    have "(of_int n :: rat) < of_int (2 ^ 53)"
      using assms(4) by (simp only: of_int_less_iff)
    then show ?thesis using assms(2) by simp
  qed
  then have e: "expo x \<le> 52"
    using pos by (rule expo_le [rotated])
  show ?thesis
    using fl_le_int [OF pos assms(2) e] fl_ge_int [OF pos assms(1) e] by simp
qed

section \<open>The counters and the score over runs\<close>

lemma handle_invariant:
  assumes "serverIncorrectCount st \<le> serverMessageCount st"
  shows "serverIncorrectCount (handle st req) \<le> serverMessageCount (handle st req)"
proof (cases req)
  case (Start tokenUser topicId topic recording)
  then show ?thesis
    using assms by (simp add: sessionStart_def split: option.splits)
next
  case (Chat tokenUser utt outcome saving)
  then show ?thesis
    using assms by (simp add: sessionChat_def Let_def split: option.splits sum.splits)
next
  case (End tokenUser recording)
  then show ?thesis
    using assms by (simp add: sessionEnd_def split: option.splits)
qed

lemma run_invariant:
  assumes "serverIncorrectCount st \<le> serverMessageCount st"
  shows "serverIncorrectCount (run st reqs) \<le> serverMessageCount (run st reqs)"
  using assms unfolding run_def
  by (induction reqs arbitrary: st) (simp_all add: handle_invariant)

lemma serverScore_zero: "serverMessageCount st = 0 \<Longrightarrow> serverScore st = 100"
  by (simp add: serverScore_def)

lemma serverScore_range:
  assumes "serverIncorrectCount st \<le> serverMessageCount st"
  shows "0 \<le> serverScore st \<and> serverScore st \<le> 100"
proof (cases "0 < serverMessageCount st")
  case False
  then show ?thesis by (simp add: serverScore_def)
next
  case True
  let ?c = "(of_nat (serverMessageCount st) :: rat) - of_nat (serverIncorrectCount st)"
  let ?t = "of_nat (serverMessageCount st) :: rat"
  have c: "0 \<le> ?c" "?c \<le> ?t" "0 < ?t"
    using assms True by simp_all
  then have q: "of_int 0 \<le> ?c / ?t" "?c / ?t \<le> of_int 1"
    by (simp_all add: divide_le_eq_1)
  have f: "of_int 0 \<le> fdiv ?c ?t \<and> fdiv ?c ?t \<le> of_int 1"
    unfolding fdiv_def using q by (rule fl_between) simp_all
  then have p: "of_int 0 \<le> fdiv ?c ?t * 100" "fdiv ?c ?t * 100 \<le> of_int 100"
    by simp_all
  have g: "of_int 0 \<le> fmul (fdiv ?c ?t) 100 \<and> fmul (fdiv ?c ?t) 100 \<le> of_int 100"
    unfolding fmul_def using p by (rule fl_between) simp_all
  have "0 \<le> Math_round (fmul (fdiv ?c ?t) 100) \<and> Math_round (fmul (fdiv ?c ?t) 100) \<le> 100"
    unfolding Math_round_def using g by (simp add: le_floor_iff floor_le_iff)
  then show ?thesis
    using True by (simp add: serverScore_def Let_def)
qed

text \<open>At every state that a run of the server reaches from its initial state, the
  incorrect counter is at most the message counter, the score is between 0 and 100, and
  it is 100 when no message was counted.\<close>

lemma reachable_score:
  "serverIncorrectCount (run (initial_state r) reqs) \<le>
     serverMessageCount (run (initial_state r) reqs) \<and>
   0 \<le> serverScore (run (initial_state r) reqs) \<and>
   serverScore (run (initial_state r) reqs) \<le> 100 \<and>
   (serverMessageCount (run (initial_state r) reqs) = 0 \<longrightarrow>
      serverScore (run (initial_state r) reqs) = 100)"
proof -
  have "serverIncorrectCount (initial_state r) \<le> serverMessageCount (initial_state r)"
    by (simp add: initial_state_def)
  then have "serverIncorrectCount (run (initial_state r) reqs) \<le>
     serverMessageCount (run (initial_state r) reqs)"
    by (rule run_invariant)
  then show ?thesis
    using serverScore_range serverScore_zero by blast
qed

lemma run_append: "run st (xs @ ys) = run (run st xs) ys"
  by (simp add: run_def)

lemma run_replicate_chat:
  assumes "classify utt (analyzeAndRespond outcome) = Inr t"
  shows "run (activeState m i) (replicate n (Chat (Some u) utt outcome saving)) =
     activeState (m + n) (i + (if countsAsIncorrect t then n else 0))"
proof (induction n arbitrary: m i)
  case 0
  then show ?case by (simp add: run_def)
next
  case (Suc n)
  have step: "handle (activeState m i) (Chat (Some u) utt outcome saving) =
      activeState (m + 1) (i + (if countsAsIncorrect t then 1 else 0))"
    unfolding handle.simps sessionChat_state [OF activeState_guard assms]
    by (simp add: activeState_def)
  have "run (activeState m i) (replicate (Suc n) (Chat (Some u) utt outcome saving)) =
        run (handle (activeState m i) (Chat (Some u) utt outcome saving))
          (replicate n (Chat (Some u) utt outcome saving))"
    by (simp add: run_def)
  then show ?case
    unfolding step using Suc [of "m + 1"] by simp
qed

lemma serverScore_40_17: "serverScore (activeState 40 17) = 57"
  by code_simp

lemma specScore_40_17: "specScore 40 17 = 58"
  by code_simp

text \<open>
  C2. The score of the code and the score of the specification differ after a session of
  40 turns of which 17 were counted incorrect: the 23 correct turns are 57.5 per cent,
  which rounds to 58, while the code divides first, so that the double nearest to
  \<open>23 / 40\<close> times 100 is the double just below 57.5, and rounds to 57.
\<close>

theorem score_tie_rounds_down:
  "(let st = run (initial_state False)
               (Start (Some 1) 1 someTopic True #
                replicate 17 (Chat (Some 1) ''I goed'' (PlainText ''It should be went'') saving) @
                replicate 23 (Chat (Some 1) ''Hello'' ApiError saving))
    in serverMessageCount st = 40 \<and> serverIncorrectCount st = 17 \<and>
       serverScore st = 57 \<and>
       specScore (serverMessageCount st) (serverIncorrectCount st) = 58)"
proof -
  let ?corrected = "Chat (Some 1) ''I goed'' (PlainText ''It should be went'') saving"
  let ?failed = "Chat (Some 1) ''Hello'' ApiError saving"
  have s: "run (initial_state False) [Start (Some 1) 1 someTopic True] = activeState 0 0"
    by (simp add: run_def sessionStart_def initial_state_def activeState_def)
  obtain t where t: "classify ''I goed'' (analyzeAndRespond (PlainText ''It should be went'')) =
      Inr t" "countsAsIncorrect t"
    using should_be_counts by blast
  obtain u where u: "classify ''Hello'' (analyzeAndRespond ApiError) = Inr u"
    "\<not> countsAsIncorrect u"
    using fallback_not_incorrect by blast
  have a: "run (activeState 0 0) (replicate 17 ?corrected) = activeState 17 17"
    unfolding run_replicate_chat [OF t(1)] using t(2) by simp
  have b: "run (activeState 17 17) (replicate 23 ?failed) = activeState 40 17"
    unfolding run_replicate_chat [OF u(1)] using u(2) by simp
  have "run (initial_state False)
               (Start (Some 1) 1 someTopic True # replicate 17 ?corrected @ replicate 23 ?failed) =
        run (run (run (initial_state False) [Start (Some 1) 1 someTopic True])
               (replicate 17 ?corrected))
          (replicate 23 ?failed)"
    by (simp only: run_append [symmetric] append_Cons append_Nil)
  then have r: "run (initial_state False)
               (Start (Some 1) 1 someTopic True # replicate 17 ?corrected @ replicate 23 ?failed) =
               activeState 40 17"
    by (simp only: s a b)
  have c: "serverMessageCount (activeState 40 17) = 40"
    "serverIncorrectCount (activeState 40 17) = 17"
    by (simp_all add: activeState_def)
  show ?thesis
    unfolding Let_def r c serverScore_40_17 specScore_40_17 by simp
qed

section \<open>Properties of the feedback engine\<close>

lemma random_score_bounds:
  assumes "0 \<le> r" and "r < 1"
  shows "85 \<le> fadd 85 (fmul r 15) \<and> fadd 85 (fmul r 15) \<le> 100"
proof -
  have "of_int 0 \<le> r * 15" "r * 15 \<le> of_int 15"
    using assms by simp_all
  then have "of_int 0 \<le> fl (r * 15) \<and> fl (r * 15) \<le> of_int 15"
    by (rule fl_between) simp_all
  then have "of_int 85 \<le> 85 + fmul r 15" "85 + fmul r 15 \<le> of_int 100"
    by (simp_all add: fmul_def)
  then have "of_int 85 \<le> fl (85 + fmul r 15) \<and> fl (85 + fmul r 15) \<le> of_int 100"
    by (rule fl_between) simp_all
  then show ?thesis
    by (simp add: fadd_def)
qed

lemma sentence_score_bounds:
  assumes "0 \<le> r" and "r < 1" and "usesRandom sentence"
  shows "85 \<le> analyzeSentenceStructure r sentence \<and> analyzeSentenceStructure r sentence \<le> 100"
  using assms(3) random_score_bounds [OF assms(1,2)]
  by (simp add: analyzeSentenceStructure_def usesRandom_def Let_def)

lemma sentence_below_80:
  assumes "0 \<le> r" and "r < 1"
  shows "analyzeSentenceStructure r sentence < 80 \<longleftrightarrow> \<not> usesRandom sentence"
proof (cases "usesRandom sentence")
  case True
  then show ?thesis
    using sentence_score_bounds [OF assms True] by simp
next
  case False
  then show ?thesis
    by (auto simp add: analyzeSentenceStructure_def usesRandom_def Let_def)
qed

text \<open>The step of the sentence loop does not depend on the numbers drawn.\<close>

lemma sentenceStep_deterministic:
  assumes "\<forall>i. 0 \<le> random i \<and> random i < 1"
    and "\<forall>i. 0 \<le> random' i \<and> random' i < 1"
  shows "sentenceStep random g sentence = sentenceStep random' g sentence"
proof -
  have "analyzeSentenceStructure (random (drawn g)) sentence < 80 \<longleftrightarrow>
        analyzeSentenceStructure (random' (drawn g)) sentence < 80"
    using assms by (simp add: sentence_below_80)
  then show ?thesis
    by (simp add: sentenceStep_def Let_def)
qed

lemma foldl_sentenceStep_deterministic:
  assumes "\<forall>i. 0 \<le> random i \<and> random i < 1"
    and "\<forall>i. 0 \<le> random' i \<and> random' i < 1"
  shows "foldl (sentenceStep random) g sentences = foldl (sentenceStep random') g sentences"
proof (induction sentences arbitrary: g)
  case Nil
  show ?case by simp
next
  case (Cons sentence sentences)
  show ?case
    using sentenceStep_deterministic [OF assms, of g sentence] Cons by simp
qed

lemma grammarRun_deterministic:
  assumes "\<forall>i. 0 \<le> random i \<and> random i < 1"
    and "\<forall>i. 0 \<le> random' i \<and> random' i < 1"
  shows "grammarRun random transcribedText = grammarRun random' transcribedText"
  unfolding grammarRun_def using assms by (rule foldl_sentenceStep_deterministic)

text \<open>
  C10, as the code has it. Whatever numbers in \<open>[0, 1)\<close> the calls of \<^verbatim>\<open>Math.random()\<close>
  return, the score of \<^verbatim>\<open>evaluateGrammar\<close> (its value, category and details) and the
  list of issues behind it are the same: they are determined by the text. For a sentence
  of 3 to 25 words the sentence score lies between 85 and 100, both included, so it is
  never below the threshold of 80.
\<close>

theorem grammar_score_deterministic:
  assumes "\<forall>i. 0 \<le> random i \<and> random i < 1"
    and "\<forall>i. 0 \<le> random' i \<and> random' i < 1"
  shows "evaluateGrammar random transcribedText = evaluateGrammar random' transcribedText \<and>
         issues (grammarRun random transcribedText) =
           issues (grammarRun random' transcribedText) \<and>
         (\<forall>i sentence.
            (let n = length (split_words (trim sentence)) in 3 \<le> n \<and> n \<le> 25) \<longrightarrow>
            85 \<le> analyzeSentenceStructure (random i) sentence \<and>
            analyzeSentenceStructure (random i) sentence \<le> 100 \<and>
            \<not> analyzeSentenceStructure (random i) sentence < 80)"
proof (intro conjI allI impI)
  show "evaluateGrammar random transcribedText = evaluateGrammar random' transcribedText"
    by (simp add: evaluateGrammar_def grammarRun_deterministic [OF assms])
  show "issues (grammarRun random transcribedText) =
          issues (grammarRun random' transcribedText)"
    by (simp add: grammarRun_deterministic [OF assms])
next
  fix i sentence
  assume "let n = length (split_words (trim sentence)) in 3 \<le> n \<and> n \<le> 25"
  then have u: "usesRandom sentence"
    by (simp add: usesRandom_def Let_def not_less)
  have r: "0 \<le> random i" "random i < 1"
    using assms(1) by simp_all
  show "85 \<le> analyzeSentenceStructure (random i) sentence"
    using sentence_score_bounds [OF r u] by simp
  show "analyzeSentenceStructure (random i) sentence \<le> 100"
    using sentence_score_bounds [OF r u] by simp
  show "\<not> analyzeSentenceStructure (random i) sentence < 80"
    using sentence_score_bounds [OF r u] by simp
qed

theorem grammar_score_deterministic_witness:
  "evaluateGrammar (\<lambda>i. 0) ''He are here. I is. This one is a fine sentence!'' =
     evaluateGrammar (\<lambda>i. 1 - 1 / 2 ^ 52) ''He are here. I is. This one is a fine sentence!'' \<and>
   85 \<le> analyzeSentenceStructure 0 ''He are here'' \<and>
   analyzeSentenceStructure 0 ''He are here'' \<le> 100"
proof -
  have a: "\<forall>i::nat. 0 \<le> (0::rat) \<and> (0::rat) < 1"
    by simp
  have b: "\<forall>i::nat. 0 \<le> (1 - 1 / 2 ^ 52 :: rat) \<and> (1 - 1 / 2 ^ 52 :: rat) < 1"
    by simp
  have n: "let n = length (split_words (trim ''He are here'')) in 3 \<le> n \<and> n \<le> 25"
    by code_simp
  show ?thesis
    using grammar_score_deterministic [of "\<lambda>i. 0" "\<lambda>i. 1 - 1 / 2 ^ 52"
        "''He are here. I is. This one is a fine sentence!''", OF a b] n
    by blast
qed

text \<open>
  The claim as the specification states it has the sentence score below 100. The largest
  number that \<^verbatim>\<open>Math.random()\<close> of the V8 engine returns is \<open>1 - 2\<^sup>-\<^sup>5\<^sup>2\<close>, a double;
  its product with 15 rounds to the double just below 15, and 85 plus that rounds to 100.
\<close>

theorem sentence_score_counterexample:
  "(let r = 1 - 1 / 2 ^ 52
    in 0 \<le> r \<and> r < 1 \<and> fl r = r \<and>
       length (split_words (trim ''He are here'')) = 3 \<and>
       analyzeSentenceStructure r ''He are here'' = 100 \<and>
       \<not> analyzeSentenceStructure r ''He are here'' < 100)"
  by code_simp

end
